theory Spec2Isabelle
  imports Complex_Main
begin

section \<open>JavaScript values\<close>

text \<open>
  A JavaScript number is an IEEE-754 double: \<open>NaN\<close>, one of the two infinities, or a
  finite value, modelled by the real number it denotes. The two zeros are one value
  here: no function below prints or divides by a zero, so its sign is never observed.
\<close>

datatype jsnum = NaN | PInf | NInf | Fin real

text \<open>
  A property read on an upstream record gives \<open>undefined\<close> when the key is absent,
  \<open>null\<close> when the JSON value is null, and a value otherwise.
\<close>

datatype 'a field = Undefined | Null | Val 'a

datatype error = TypeError

subsection \<open>Rounding\<close>

text \<open>
  The result of an arithmetic operation is the double nearest to the exact result, a tie
  going to the even significand. \<open>round_even\<close> rounds a real to the nearest integer in
  that way.
\<close>

definition round_even :: "real \<Rightarrow> int" where
  "round_even q =
     (let f = \<lfloor>q\<rfloor>
      in if q - of_int f < 1 / 2 then f
         else if 1 / 2 < q - of_int f then f + 1
         else if even f then f else f + 1)"

text \<open>
  The doubles around \<open>x\<close> are the multiples of \<open>2 ^ expo x\<close>: a significand of 53 bits
  above the binary exponent of \<open>x\<close>, and the subnormal spacing \<open>2 ^ -1074\<close> at the bottom.
\<close>

definition expo :: "real \<Rightarrow> int" where
  "expo x = max (\<lfloor>log 2 \<bar>x\<bar>\<rfloor> - 52) (- 1074)"

definition nearest :: "real \<Rightarrow> real" where
  "nearest x = (if x = 0 then 0 else of_int (round_even (x / 2 powi expo x)) * 2 powi expo x)"

text \<open>A result that rounds to \<open>2 ^ 1024\<close> or beyond is an infinity.\<close>

definition rnd :: "real \<Rightarrow> jsnum" where
  "rnd x =
     (let r = nearest x
      in if 2 ^ 1024 \<le> r then PInf else if r \<le> - (2 ^ 1024) then NInf else Fin r)"

subsection \<open>Operators\<close>

text \<open>\<open>!x\<close> is true for \<open>undefined\<close>, \<open>null\<close>, \<open>0\<close> and \<open>NaN\<close>.\<close>

fun truthy :: "jsnum field \<Rightarrow> bool" where
  "truthy Undefined = False"
| "truthy Null = False"
| "truthy (Val NaN) = False"
| "truthy (Val (Fin x)) = (x \<noteq> 0)"
| "truthy (Val PInf) = True"
| "truthy (Val NInf) = True"

text \<open>\<open>ToNumber\<close>: \<open>undefined\<close> becomes \<open>NaN\<close>, \<open>null\<close> becomes \<open>0\<close>.\<close>

fun ToNumber :: "jsnum field \<Rightarrow> jsnum" where
  "ToNumber Undefined = NaN"
| "ToNumber Null = Fin 0"
| "ToNumber (Val n) = n"

fun js_add :: "jsnum \<Rightarrow> jsnum \<Rightarrow> jsnum" where
  "js_add (Fin a) (Fin b) = rnd (a + b)"
| "js_add NaN b = NaN"
| "js_add a NaN = NaN"
| "js_add PInf NInf = NaN"
| "js_add NInf PInf = NaN"
| "js_add PInf b = PInf"
| "js_add NInf b = NInf"
| "js_add (Fin a) b = b"

fun js_sub :: "jsnum \<Rightarrow> jsnum \<Rightarrow> jsnum" where
  "js_sub (Fin a) (Fin b) = rnd (a - b)"
| "js_sub NaN b = NaN"
| "js_sub a NaN = NaN"
| "js_sub PInf PInf = NaN"
| "js_sub NInf NInf = NaN"
| "js_sub PInf b = PInf"
| "js_sub NInf b = NInf"
| "js_sub (Fin a) PInf = NInf"
| "js_sub (Fin a) NInf = PInf"

text \<open>The sign of an infinite product; zero times an infinity is \<open>NaN\<close>.\<close>

definition signed_inf :: "real \<Rightarrow> jsnum" where
  "signed_inf s = (if s = 0 then NaN else if 0 < s then PInf else NInf)"

fun js_mul :: "jsnum \<Rightarrow> jsnum \<Rightarrow> jsnum" where
  "js_mul (Fin a) (Fin b) = rnd (a * b)"
| "js_mul NaN b = NaN"
| "js_mul a NaN = NaN"
| "js_mul PInf PInf = PInf"
| "js_mul PInf NInf = NInf"
| "js_mul NInf PInf = NInf"
| "js_mul NInf NInf = PInf"
| "js_mul PInf (Fin b) = signed_inf b"
| "js_mul NInf (Fin b) = signed_inf (- b)"
| "js_mul (Fin a) PInf = signed_inf a"
| "js_mul (Fin a) NInf = signed_inf (- a)"

text \<open>
  Division. The code divides by non-zero constants and by array lengths it has checked
  to be positive; a zero divisor is taken as \<open>+0\<close>.
\<close>

fun js_div :: "jsnum \<Rightarrow> jsnum \<Rightarrow> jsnum" where
  "js_div (Fin a) (Fin b) = (if b = 0 then signed_inf a else rnd (a / b))"
| "js_div NaN b = NaN"
| "js_div a NaN = NaN"
| "js_div PInf (Fin b) = (if 0 \<le> b then PInf else NInf)"
| "js_div NInf (Fin b) = (if 0 \<le> b then NInf else PInf)"
| "js_div (Fin a) b = Fin 0"
| "js_div a b = NaN"

text \<open>
  The remainder \<open>a % b\<close> takes the sign of the dividend and is exact: \<open>a\<close> less \<open>b\<close>
  times the quotient truncated towards zero. An infinite dividend or a zero divisor gives
  \<open>NaN\<close>, an infinite divisor the dividend.
\<close>

fun js_rem :: "jsnum \<Rightarrow> jsnum \<Rightarrow> jsnum" where
  "js_rem (Fin a) (Fin b) =
     (if b = 0 then NaN
      else Fin (a - b * of_int (if 0 \<le> a / b then \<lfloor>a / b\<rfloor> else \<lceil>a / b\<rceil>)))"
| "js_rem (Fin a) PInf = Fin a"
| "js_rem (Fin a) NInf = Fin a"
| "js_rem a b = NaN"

text \<open>Comparisons with \<open>NaN\<close> are false.\<close>

fun js_gt :: "jsnum \<Rightarrow> jsnum \<Rightarrow> bool" where
  "js_gt (Fin a) (Fin b) = (a > b)"
| "js_gt NaN b = False"
| "js_gt a NaN = False"
| "js_gt PInf b = (b \<noteq> PInf)"
| "js_gt a NInf = (a \<noteq> NInf)"
| "js_gt a b = False"

fun js_le :: "jsnum \<Rightarrow> jsnum \<Rightarrow> bool" where
  "js_le (Fin a) (Fin b) = (a \<le> b)"
| "js_le NaN b = False"
| "js_le a NaN = False"
| "js_le NInf b = True"
| "js_le a PInf = True"
| "js_le a b = False"

fun Math_floor :: "jsnum \<Rightarrow> jsnum" where
  "Math_floor (Fin x) = Fin (of_int \<lfloor>x\<rfloor>)"
| "Math_floor a = a"

text \<open>\<open>Math.round\<close> rounds to the nearest integer, halves towards \<open>+\<infinity>\<close>.\<close>

fun Math_round :: "jsnum \<Rightarrow> jsnum" where
  "Math_round (Fin x) = Fin (of_int \<lfloor>x + 1 / 2\<rfloor>)"
| "Math_round a = a"

text \<open>\<open>Math.min\<close> of two numbers: \<open>NaN\<close> if either is.\<close>

fun Math_min :: "jsnum \<Rightarrow> jsnum \<Rightarrow> jsnum" where
  "Math_min (Fin a) (Fin b) = Fin (min a b)"
| "Math_min NaN b = NaN"
| "Math_min a NaN = NaN"
| "Math_min NInf b = NInf"
| "Math_min a NInf = NInf"
| "Math_min PInf b = b"
| "Math_min a PInf = a"

subsection \<open>Numbers as strings\<close>

definition digit_char :: "nat \<Rightarrow> char" where
  "digit_char d = ''0123456789'' ! d"

fun nat_toString :: "nat \<Rightarrow> string" where
  "nat_toString n =
     (if n < 10 then [digit_char n] else nat_toString (n div 10) @ [digit_char (n mod 10)])"

declare nat_toString.simps [simp del]

text \<open>
  \<open>Number.prototype.toString\<close> writes the shortest decimal that reads back as the same
  double: \<open>k\<close> digits \<open>s\<close> and a decimal exponent \<open>n\<close> with \<open>s * 10 ^ (n - k)\<close> rounding
  to the value, \<open>k\<close> as small as possible, and of several such the one closest to the
  value (the even \<open>s\<close> on a tie). For an integer \<open>m\<close> beyond \<open>2 ^ 53\<close> the candidates with
  \<open>k\<close> digits are the two multiples of a power of ten around \<open>m\<close>, with \<open>n\<close> the number of
  digits of \<open>m\<close> or one more (when the upper multiple carries).
\<close>

definition candidates :: "nat \<Rightarrow> nat \<Rightarrow> (nat \<times> nat) list" where
  "candidates m k =
     concat (map (\<lambda>n. concat (map (\<lambda>s.
         if k \<le> n \<and> 10 ^ (k - 1) \<le> s \<and> s < 10 ^ k \<and> rnd (real (s * 10 ^ (n - k))) = Fin (real m)
         then [(s, n)] else [])
       [m div 10 ^ (n - k), Suc (m div 10 ^ (n - k))]))
     [length (nat_toString m), Suc (length (nat_toString m))])"

definition closer :: "nat \<Rightarrow> nat \<Rightarrow> nat \<times> nat \<Rightarrow> nat \<times> nat \<Rightarrow> nat \<times> nat" where
  "closer m k a b =
     (let da = \<bar>int (fst a * 10 ^ (snd a - k)) - int m\<bar>;
          db = \<bar>int (fst b * 10 ^ (snd b - k)) - int m\<bar>
      in if da < db then a else if db < da then b else if even (fst a) then a else b)"

text \<open>
  The search runs over \<open>k = 1, 2, ...\<close>; seventeen digits always suffice, and the last
  equation is never reached from \<open>shortest\<close>.
\<close>

fun shortest_from :: "nat \<Rightarrow> nat \<Rightarrow> nat \<Rightarrow> nat \<times> nat" where
  "shortest_from m k 0 = (m, length (nat_toString m))"
| "shortest_from m k (Suc fuel) =
     (case candidates m k of
        [] \<Rightarrow> shortest_from m (Suc k) fuel
      | c # cs \<Rightarrow> foldl (closer m k) c cs)"

definition shortest :: "nat \<Rightarrow> nat \<times> nat" where
  "shortest m = shortest_from m 1 17"

text \<open>
  The digits of a non-negative integer value \<open>m\<close>. Up to \<open>2 ^ 53\<close> every integer is a
  double and its own shortest decimal. Beyond, the shortest digits are followed by zeros
  while \<open>n \<le> 21\<close>, and written with an exponent (\<open>d.ddde+x\<close>) from \<open>n = 22\<close> on.
\<close>

definition mag_toString :: "nat \<Rightarrow> string" where
  "mag_toString m =
     (if m \<le> 2 ^ 53 then nat_toString m
      else
        let (s, n) = shortest m; ds = nat_toString s
        in if n \<le> 21 then ds @ replicate (n - length ds) (CHR ''0'')
           else (if length ds = 1 then ds else hd ds # CHR ''.'' # tl ds)
                  @ ''e+'' @ nat_toString (n - 1))"

definition int_toString :: "int \<Rightarrow> string" where
  "int_toString i = (if i < 0 then CHR ''-'' # mag_toString (nat (- i)) else mag_toString (nat i))"

text \<open>
  \<open>toString\<close> on a number. The finite values it is called on are results of
  \<open>Math.floor\<close> and remainders of integers: integers.
\<close>

fun Number_toString :: "jsnum \<Rightarrow> string" where
  "Number_toString NaN = ''NaN''"
| "Number_toString PInf = ''Infinity''"
| "Number_toString NInf = ''-Infinity''"
| "Number_toString (Fin x) = int_toString \<lfloor>x\<rfloor>"

text \<open>\<open>s.padStart(n, c)\<close> with a one-character filler.\<close>

definition padStart :: "string \<Rightarrow> nat \<Rightarrow> char \<Rightarrow> string" where
  "padStart s n c = replicate (n - length s) c @ s"

section \<open>Duration formatting\<close>

text \<open>
  \<^verbatim>\<open>
  function formatDuration(ms) {
    if (!ms) return '0:00';
    const totalSeconds = Math.floor(ms / 1000);
    const hours = Math.floor(totalSeconds / 3600);
    const minutes = Math.floor((totalSeconds % 3600) / 60);
    const seconds = totalSeconds % 60;
    if (hours > 0) {
      return `${hours}:${minutes.toString().padStart(2, '0')}:${seconds.toString().padStart(2, '0')}`;
    }
    return `${minutes}:${seconds.toString().padStart(2, '0')}`;
  }
  \<close>
  The same text stands in the episode search and in the episode list. The template
  literal converts \<open>hours\<close> and \<open>minutes\<close> as \<open>toString\<close> does.
\<close>

definition formatDuration :: "jsnum field \<Rightarrow> string" where
  "formatDuration ms =
     (if \<not> truthy ms then ''0:00''
      else
        let totalSeconds = Math_floor (js_div (ToNumber ms) (Fin 1000));
            hours = Math_floor (js_div totalSeconds (Fin 3600));
            minutes = Math_floor (js_div (js_rem totalSeconds (Fin 3600)) (Fin 60));
            seconds = js_rem totalSeconds (Fin 60)
        in if js_gt hours (Fin 0)
           then Number_toString hours @ '':'' @ padStart (Number_toString minutes) 2 (CHR ''0'')
                  @ '':'' @ padStart (Number_toString seconds) 2 (CHR ''0'')
           else Number_toString minutes @ '':'' @ padStart (Number_toString seconds) 2 (CHR ''0''))"

section \<open>Upstream records\<close>

text \<open>
  One element of the \<open>results\<close> array of the directory service. The podcast (collection)
  entry and the episode entries stand in the same array and are read through the same
  keys; every key may be absent or null. Identifiers are integers.
\<close>

record rawItem =
  wrapperType :: "string field"
  kind :: "string field"
  trackId :: "int field"
  collectionId :: "int field"
  trackName :: "string field"
  collectionName :: "string field"
  collectionCensoredName :: "string field"
  artistName :: "string field"
  description :: "string field"
  releaseDate :: "string field"
  trackTimeMillis :: "jsnum field"
  trackCount :: "jsnum field"
  trackViewUrl :: "string field"
  collectionViewUrl :: "string field"
  feedUrl :: "string field"
  previewUrl :: "string field"
  episodeUrl :: "string field"
  artworkUrl60 :: "string field"
  artworkUrl100 :: "string field"
  artworkUrl160 :: "string field"
  artworkUrl600 :: "string field"
  contentAdvisoryRating :: "string field"
  country :: "string field"
  primaryGenreName :: "string field"
  genres :: "string list field"
  languageCodesISO2A :: "string list field"

subsection \<open>Property access\<close>

text \<open>\<open>x?.m()\<close>: \<open>undefined\<close> when \<open>x\<close> is \<open>undefined\<close> or \<open>null\<close>, the call otherwise.\<close>

fun optional_call :: "'a field \<Rightarrow> ('a \<Rightarrow> 'b) \<Rightarrow> 'b field" where
  "optional_call (Val v) m = Val (m v)"
| "optional_call _ m = Undefined"

text \<open>\<open>x.m()\<close> throws a \<open>TypeError\<close> when \<open>x\<close> is \<open>undefined\<close> or \<open>null\<close>.\<close>

fun method_call :: "'a field \<Rightarrow> ('a \<Rightarrow> 'b) \<Rightarrow> error + 'b" where
  "method_call (Val v) m = Inr (m v)"
| "method_call _ m = Inl TypeError"

text \<open>\<open>xs[i]\<close> is \<open>undefined\<close> outside the array.\<close>

definition index :: "'a list \<Rightarrow> nat \<Rightarrow> 'a field" where
  "index xs i = (if i < length xs then Val (xs ! i) else Undefined)"

text \<open>\<open>a || b\<close> on optional strings: the empty string is falsy too.\<close>

fun str_or :: "string field \<Rightarrow> string field \<Rightarrow> string field" where
  "str_or (Val s) b = (if s = [] then b else Val s)"
| "str_or _ b = b"

text \<open>\<open>a || b\<close> where \<open>b\<close> is a string literal.\<close>

fun str_or_lit :: "string field \<Rightarrow> string \<Rightarrow> string" where
  "str_or_lit (Val s) b = (if s = [] then b else s)"
| "str_or_lit _ b = b"

text \<open>\<open>a || []\<close>: every array is truthy.\<close>

fun list_or_empty :: "'a list field \<Rightarrow> 'a list" where
  "list_or_empty (Val xs) = xs"
| "list_or_empty _ = []"

section \<open>Episode normalization\<close>

text \<open>
  Where two response shapes of the source share a key, the later record carries the key
  with the prefix of its shape (\<open>se_\<close> for a search result, \<open>ep_\<close> for an entry of the
  episode list, \<open>re_\<close> for a recent episode of the detail view).
\<close>

record artwork3 =
  small :: "string field"
  medium :: "string field"
  large :: "string field"

record searchEpisode =
  episode_id :: "string field"
  podcast_id :: "string field"
  podcast_name :: "string field"
  podcast_publisher :: "string field"
  se_title :: "string field"
  se_description :: "string field"
  se_release_date :: "string field"
  se_duration_ms :: "jsnum field"
  se_duration_formatted :: string
  se_url :: "string field"
  se_audio_url :: "string field"
  se_artwork :: artwork3
  content_rating :: "string field"
  se_country :: "string field"
  se_genres :: "string list"
  se_primary_genre :: "string field"

text \<open>
  The mapping of \<open>api/search/episodes.js\<close> (\<open>.map(episode => ({...}))\<close>), applied to
  the results that pass
  \<open>.filter(item => item.kind === 'podcast-episode' || item.wrapperType === 'podcastEpisode')\<close>.
\<close>

definition searchEpisode_of :: "rawItem \<Rightarrow> searchEpisode" where
  "searchEpisode_of episode =
     \<lparr> episode_id = optional_call (trackId episode) int_toString,
       podcast_id = optional_call (collectionId episode) int_toString,
       podcast_name = collectionName episode,
       podcast_publisher = artistName episode,
       se_title = trackName episode,
       se_description = description episode,
       se_release_date = releaseDate episode,
       se_duration_ms = trackTimeMillis episode,
       se_duration_formatted = formatDuration (trackTimeMillis episode),
       se_url = trackViewUrl episode,
       se_audio_url = str_or (episodeUrl episode) (previewUrl episode),
       se_artwork = \<lparr> small = artworkUrl60 episode, medium = artworkUrl160 episode,
                      large = artworkUrl600 episode \<rparr>,
       content_rating = contentAdvisoryRating episode,
       se_country = country episode,
       se_genres = list_or_empty (genres episode),
       se_primary_genre = primaryGenreName episode \<rparr>"

definition is_episode :: "rawItem \<Rightarrow> bool" where
  "is_episode item = (kind item = Val ''podcast-episode'' \<or> wrapperType item = Val ''podcastEpisode'')"

definition searchEpisodes_of :: "rawItem list \<Rightarrow> searchEpisode list" where
  "searchEpisodes_of results = map searchEpisode_of (filter is_episode results)"

record episode =
  ep_id :: "string field"
  ep_title :: "string field"
  ep_description :: "string field"
  release_date :: "string field"
  duration_ms :: "jsnum field"
  duration_formatted :: string
  ep_url :: "string field"
  audio_url :: "string field"
  artwork :: "string field"

text \<open>The mapping of \<open>api/episodes.js\<close> (\<open>lookupData.results.slice(1).map(ep => ({...}))\<close>).\<close>

definition episode_of :: "rawItem \<Rightarrow> episode" where
  "episode_of ep =
     \<lparr> ep_id = optional_call (trackId ep) int_toString,
       ep_title = trackName ep,
       ep_description = description ep,
       release_date = releaseDate ep,
       duration_ms = trackTimeMillis ep,
       duration_formatted = formatDuration (trackTimeMillis ep),
       ep_url = trackViewUrl ep,
       audio_url = previewUrl ep,
       artwork = str_or (artworkUrl600 ep) (artworkUrl160 ep) \<rparr>"

section \<open>Dates\<close>

text \<open>
  A \<open>Date\<close> object is invalid or holds a time value, the milliseconds since the epoch.
  How a string is parsed is the runtime's business: the parser is a parameter of the
  analyzers. \<open>new Date(undefined)\<close> is invalid; \<open>new Date(null)\<close> converts \<open>null\<close> to
  the number \<open>0\<close> and is the epoch.
\<close>

datatype jsdate = InvalidDate | Date int

fun newDate :: "(string \<Rightarrow> jsdate) \<Rightarrow> string field \<Rightarrow> jsdate" where
  "newDate parse Undefined = InvalidDate"
| "newDate parse Null = Date 0"
| "newDate parse (Val s) = parse s"

fun getTime :: "jsdate \<Rightarrow> jsnum" where
  "getTime InvalidDate = NaN"
| "getTime (Date t) = Fin (of_int t)"

fun isNaN :: "jsnum \<Rightarrow> bool" where
  "isNaN NaN = True"
| "isNaN PInf = False"
| "isNaN NInf = False"
| "isNaN (Fin x) = False"

text \<open>
  \<open>.filter(d => !isNaN(d.getTime()))\<close>, keeping the time values of the dates that
  pass, and \<open>.sort((a, b) => b - a)\<close> on them: descending.
\<close>

definition valid_times :: "jsdate list \<Rightarrow> int list" where
  "valid_times ds =
     concat (map (\<lambda>d. case d of InvalidDate \<Rightarrow> [] | Date t \<Rightarrow> [t])
       (filter (\<lambda>d. \<not> isNaN (getTime d)) ds))"

definition sort_desc :: "int list \<Rightarrow> int list" where
  "sort_desc ts = rev (sort ts)"

section \<open>Publishing frequency\<close>

text \<open>
  \<^verbatim>\<open>
  let avgDaysBetween = null;
  if (dates.length > 1) {
    const intervals = [];
    for (let i = 0; i < Math.min(dates.length - 1, CAP); i++) {
      const days = (dates[i] - dates[i + 1]) / (1000 * 60 * 60 * 24);
      intervals.push(days);
    }
    avgDaysBetween = intervals.reduce((a, b) => a + b, 0) / intervals.length;
  }
  \<close>
  with \<open>CAP = 10\<close> in \<open>analyzeEpisodes\<close> and \<open>CAP = 20\<close> in
  \<open>generateEpisodeAnalytics\<close>; the two loops differ in nothing else.
\<close>

definition intervals :: "nat \<Rightarrow> int list \<Rightarrow> jsnum list" where
  "intervals cap dates =
     map (\<lambda>i. js_div (js_sub (Fin (of_int (dates ! i))) (Fin (of_int (dates ! (i + 1)))))
                  (Fin (1000 * 60 * 60 * 24)))
       [0 ..< min (length dates - 1) cap]"

definition avgDaysBetween :: "nat \<Rightarrow> int list \<Rightarrow> jsnum field" where
  "avgDaysBetween cap dates =
     (if length dates > 1
      then Val (js_div (foldl js_add (Fin 0) (intervals cap dates))
                  (Fin (real (length (intervals cap dates)))))
      else Null)"

definition estimateSchedule :: "jsnum field \<Rightarrow> string" where
  "estimateSchedule avgDays =
     (if \<not> truthy avgDays then ''unknown''
      else if js_le (ToNumber avgDays) (Fin 1.5) then ''daily''
      else if js_le (ToNumber avgDays) (Fin 4) then ''2-3 times per week''
      else if js_le (ToNumber avgDays) (Fin 9) then ''weekly''
      else if js_le (ToNumber avgDays) (Fin 18) then ''biweekly''
      else if js_le (ToNumber avgDays) (Fin 35) then ''monthly''
      else ''irregular'')"

definition estimateFrequency :: "jsnum field \<Rightarrow> string" where
  "estimateFrequency avgDays =
     (if \<not> truthy avgDays then ''unknown''
      else if js_le (ToNumber avgDays) (Fin 1.5) then ''daily''
      else if js_le (ToNumber avgDays) (Fin 4) then ''multiple times per week''
      else if js_le (ToNumber avgDays) (Fin 9) then ''weekly''
      else if js_le (ToNumber avgDays) (Fin 18) then ''biweekly''
      else if js_le (ToNumber avgDays) (Fin 35) then ''monthly''
      else ''irregular'')"

section \<open>Episode analysis\<close>

text \<open>
  \<open>durations.length > 0 ? durations.reduce((a, b) => a + b, 0) / durations.length : 0\<close>
  over the durations that passed \<open>.filter(d => d > 0)\<close>.
\<close>

definition positive_durations :: "jsnum field list \<Rightarrow> jsnum list" where
  "positive_durations ms =
     filter (\<lambda>d. js_gt d (Fin 0)) (map (\<lambda>m. js_div (ToNumber m) (Fin 1000)) ms)"

definition avgDuration :: "jsnum list \<Rightarrow> jsnum" where
  "avgDuration durations =
     (if length durations > 0
      then js_div (foldl js_add (Fin 0) durations) (Fin (real (length durations)))
      else Fin 0)"

record episodeAnalysis =
  ea_average_duration_seconds :: jsnum
  average_duration_minutes :: jsnum
  publishing_frequency_days :: "jsnum field"
  estimated_schedule :: string
  total_analyzed :: nat

text \<open>\<open>analyzeEpisodes\<close> of \<open>api/podcasts/[id].js\<close>, on the raw episode entries.\<close>

definition analyzeEpisodes :: "(string \<Rightarrow> jsdate) \<Rightarrow> rawItem list \<Rightarrow> episodeAnalysis field" where
  "analyzeEpisodes parse episodes =
     (if length episodes = 0 then Null
      else
        let durations = positive_durations (map trackTimeMillis episodes);
            avg = avgDuration durations;
            dates = sort_desc (valid_times (map (\<lambda>ep. newDate parse (releaseDate ep)) episodes));
            avgDays = avgDaysBetween 10 dates
        in Val \<lparr> ea_average_duration_seconds = Math_round avg,
                 average_duration_minutes = Math_round (js_div avg (Fin 60)),
                 publishing_frequency_days =
                   (if truthy avgDays then Val (Math_round (ToNumber avgDays)) else Null),
                 estimated_schedule = estimateSchedule avgDays,
                 total_analyzed = length episodes \<rparr>)"

text \<open>The text \<open>toISOString()\<close> gives for a time value stands for itself.\<close>

datatype isostring = ISOString int

record episodeAnalytics =
  total_episodes :: nat
  average_duration_seconds :: jsnum
  average_duration_formatted :: string
  first_episode_date :: "isostring field"
  latest_episode_date :: "isostring field"
  average_days_between_episodes :: "jsnum field"
  publishing_frequency :: string

text \<open>
  \<open>generateEpisodeAnalytics\<close> of \<open>api/episodes.js\<close>, on the normalized entries.
  \<open>toISOString\<close> is called on an element of \<open>dates\<close> read by index, which would throw
  if the read gave \<open>undefined\<close>.
\<close>

definition generateEpisodeAnalytics ::
  "(string \<Rightarrow> jsdate) \<Rightarrow> episode list \<Rightarrow> error + episodeAnalytics field" where
  "generateEpisodeAnalytics parse episodes =
     (if length episodes = 0 then Inr Null
      else
        let durations = positive_durations (map duration_ms episodes);
            avg = avgDuration durations;
            dates = sort_desc (valid_times (map (\<lambda>ep. newDate parse (release_date ep)) episodes));
            avgDays = avgDaysBetween 20 dates
        in case (if length dates > 0
                 then map_sum id Val (method_call (index dates (length dates - 1)) ISOString)
                 else Inr Null) of
             Inl e \<Rightarrow> Inl e
           | Inr first \<Rightarrow>
              (case (if length dates > 0
                     then map_sum id Val (method_call (index dates 0) ISOString)
                     else Inr Null) of
                 Inl e \<Rightarrow> Inl e
               | Inr latest \<Rightarrow>
                   Inr (Val \<lparr> total_episodes = length episodes,
                              average_duration_seconds = Math_round avg,
                              average_duration_formatted = formatDuration (Val (js_mul avg (Fin 1000))),
                              first_episode_date = first,
                              latest_episode_date = latest,
                              average_days_between_episodes =
                                (if truthy avgDays then Val (Math_round (ToNumber avgDays)) else Null),
                              publishing_frequency = estimateFrequency avgDays \<rparr>)))"

section \<open>Popularity estimates\<close>

text \<open>
  Both estimators keep their coefficients in an object literal and read it with
  \<open>table[genre] || table.default\<close>. A property read on an object literal finds the
  literal's own keys first and then the properties every object inherits from
  \<open>Object.prototype\<close>. The inherited ones are functions (and, under \<open>__proto__\<close>, the
  prototype object itself): truthy values whose conversion to a number is \<open>NaN\<close>.
\<close>

datatype propval = PUndefined | PNumber real | PObject

definition Object_prototype_keys :: "string list" where
  "Object_prototype_keys =
     [''constructor'', ''__defineGetter__'', ''__defineSetter__'', ''hasOwnProperty'',
      ''__lookupGetter__'', ''__lookupSetter__'', ''isPrototypeOf'', ''propertyIsEnumerable'',
      ''toString'', ''valueOf'', ''__proto__'', ''toLocaleString'']"

definition get_property :: "(string \<times> real) list \<Rightarrow> string \<Rightarrow> propval" where
  "get_property obj k =
     (case map_of obj k of
        Some v \<Rightarrow> PNumber v
      | None \<Rightarrow> if k \<in> set Object_prototype_keys then PObject else PUndefined)"

text \<open>The key of \<open>table[x]\<close> is \<open>x\<close> converted to a string.\<close>

fun property_key :: "string field \<Rightarrow> string" where
  "property_key Undefined = ''undefined''"
| "property_key Null = ''null''"
| "property_key (Val s) = s"

fun prop_or :: "propval \<Rightarrow> propval \<Rightarrow> propval" where
  "prop_or PUndefined b = b"
| "prop_or (PNumber v) b = (if v = 0 then b else PNumber v)"
| "prop_or PObject b = PObject"

fun prop_ToNumber :: "propval \<Rightarrow> jsnum" where
  "prop_ToNumber PUndefined = NaN"
| "prop_ToNumber (PNumber v) = Fin v"
| "prop_ToNumber PObject = NaN"

definition baseMultiplier :: "(string \<times> real) list" where
  "baseMultiplier =
     [(''True Crime'', 15000), (''News'', 12000), (''Comedy'', 10000), (''Business'', 8000),
      (''Technology'', 7000), (''Sports'', 9000), (''Health & Fitness'', 6000),
      (''Education'', 5000), (''Society & Culture'', 5500), (''default'', 4000)]"

text \<open>
  \<^verbatim>\<open>
  function estimateListeners(episodeCount, genre) {
    const multiplier = baseMultiplier[genre] || baseMultiplier.default;
    const episodeFactor = Math.min(episodeCount / 100, 5);
    return Math.floor(multiplier * (1 + episodeFactor));
  }
  \<close>
  called as \<open>estimateListeners(podcast.trackCount, podcast.primaryGenreName)\<close>.
\<close>

definition estimateListeners :: "jsnum field \<Rightarrow> string field \<Rightarrow> jsnum" where
  "estimateListeners episodeCount genre =
     (let multiplier = prop_or (get_property baseMultiplier (property_key genre))
                         (get_property baseMultiplier ''default'');
          episodeFactor = Math_min (js_div (ToNumber episodeCount) (Fin 100)) (Fin 5)
      in Math_floor (js_mul (prop_ToNumber multiplier) (js_add (Fin 1) episodeFactor)))"

text \<open>
  A decimal literal denotes the double nearest to it: \<open>2.5\<close>, \<open>2.0\<close>, \<open>1.5\<close> and
  \<open>1.0\<close> are doubles, \<open>1.8\<close>, \<open>1.6\<close>, \<open>1.7\<close>, \<open>1.4\<close> and \<open>0.7\<close> are not.
\<close>

definition genreMultipliers :: "(string \<times> real) list" where
  "genreMultipliers =
     [(''True Crime'', 2.5), (''News'', 2.0), (''Comedy'', nearest 1.8),
      (''Business'', nearest 1.6), (''Technology'', 1.5), (''Sports'', nearest 1.7),
      (''Health & Fitness'', nearest 1.4), (''default'', 1.0)]"

text \<open>
  \<open>Math.log10\<close> is approximated by the runtime, so the function it computes on the
  positive finite numbers is a parameter of the estimator, like the parser of dates. At
  zero the result is \<open>-Infinity\<close>, below zero \<open>NaN\<close>.
\<close>

fun Math_log10 :: "(real \<Rightarrow> real) \<Rightarrow> jsnum \<Rightarrow> jsnum" where
  "Math_log10 log10 (Fin x) = (if 0 < x then Fin (log10 x) else if x = 0 then NInf else NaN)"
| "Math_log10 log10 PInf = PInf"
| "Math_log10 log10 a = NaN"

record metrics =
  estimated_weekly_listeners :: jsnum
  estimated_downloads_per_episode :: jsnum
  confidence :: string
  metrics_note :: string

text \<open>
  \<^verbatim>\<open>
  function estimateMetrics(podcast, episodeCount) {
    const multiplier = genreMultipliers[podcast.primaryGenreName] || genreMultipliers.default;
    const episodeFactor = Math.log10(episodeCount + 1);
    const baseListeners = 5000;
    const estimatedWeeklyListeners = Math.floor(baseListeners * multiplier * episodeFactor);
    const estimatedDownloadsPerEpisode = Math.floor(estimatedWeeklyListeners * 0.7);
    return { ..., confidence: 'low', note: '...' };
  }
  \<close>
  called with \<open>episodes.length\<close>, a natural number.
\<close>

definition estimateMetrics :: "(real \<Rightarrow> real) \<Rightarrow> rawItem \<Rightarrow> nat \<Rightarrow> metrics" where
  "estimateMetrics log10 podcast episodeCount =
     (let multiplier = prop_or (get_property genreMultipliers (property_key (primaryGenreName podcast)))
                         (get_property genreMultipliers ''default'');
          episodeFactor = Math_log10 log10 (js_add (Fin (real episodeCount)) (Fin 1));
          baseListeners = Fin 5000;
          estimatedWeeklyListeners =
            Math_floor (js_mul (js_mul baseListeners (prop_ToNumber multiplier)) episodeFactor);
          estimatedDownloadsPerEpisode = Math_floor (js_mul estimatedWeeklyListeners (Fin (nearest 0.7)))
      in \<lparr> estimated_weekly_listeners = estimatedWeeklyListeners,
           estimated_downloads_per_episode = estimatedDownloadsPerEpisode,
           confidence = ''low'',
           metrics_note = ''Estimates based on genre, episode count, and industry averages'' \<rparr>)"

section \<open>Podcast details\<close>

record detailArtwork =
  url_60 :: "string field"
  url_100 :: "string field"
  url_600 :: "string field"

record detailMetadata =
  feed_url :: "string field"
  itunes_url :: "string field"
  itunes_id :: "int field"
  copyright :: "string field"
  author :: "string field"

record detailCategories =
  cat_genres :: "string list"
  primary_genre :: "string field"

record detailStats =
  episode_count :: jsnum
  st_release_date :: "string field"
  st_latest_episode_date :: "string field"
  st_country :: "string field"
  language :: string
  explicit :: bool

record recentEpisode =
  re_id :: "string field"
  re_title :: "string field"
  re_description :: string
  re_release_date :: "string field"
  duration :: "jsnum field"
  re_url :: "string field"

record podcastDetails =
  pd_id :: string
  pd_name :: "string field"
  publisher :: "string field"
  pd_description :: "string field"
  pd_artwork :: detailArtwork
  metadata :: detailMetadata
  categories :: detailCategories
  stats :: detailStats
  episode_insights :: "episodeAnalysis field"
  recent_episodes :: "recentEpisode list"
  estimated_metrics :: metrics

text \<open>\<open>ep => ({...})\<close> of \<open>recent_episodes\<close>.\<close>

definition recentEpisode_of :: "rawItem \<Rightarrow> recentEpisode" where
  "recentEpisode_of ep =
     \<lparr> re_id = optional_call (trackId ep) int_toString,
       re_title = trackName ep,
       re_description = str_or_lit (optional_call (description ep) (take 200)) [],
       re_release_date = releaseDate ep,
       duration = trackTimeMillis ep,
       re_url = trackViewUrl ep \<rparr>"

text \<open>
  The object the detail handler compiles from \<open>podcastInfo = results[0]\<close> and
  \<open>episodes = results.slice(1)\<close>. \<open>podcastInfo.collectionId.toString()\<close> is the one call
  that is not guarded.
\<close>

definition podcastDetails_of ::
  "(string \<Rightarrow> jsdate) \<Rightarrow> (real \<Rightarrow> real) \<Rightarrow> rawItem \<Rightarrow> rawItem list \<Rightarrow> error + podcastDetails" where
  "podcastDetails_of parse log10 podcastInfo episodes =
     (let episodeAnalysis = analyzeEpisodes parse episodes
      in case method_call (collectionId podcastInfo) int_toString of
           Inl e \<Rightarrow> Inl e
         | Inr i \<Rightarrow>
             Inr \<lparr> pd_id = i,
                   pd_name = collectionName podcastInfo,
                   publisher = artistName podcastInfo,
                   pd_description = collectionCensoredName podcastInfo,
                   pd_artwork = \<lparr> url_60 = artworkUrl60 podcastInfo,
                                  url_100 = artworkUrl100 podcastInfo,
                                  url_600 = artworkUrl600 podcastInfo \<rparr>,
                   metadata = \<lparr> feed_url = feedUrl podcastInfo,
                                itunes_url = collectionViewUrl podcastInfo,
                                itunes_id = collectionId podcastInfo,
                                copyright = Null,
                                author = artistName podcastInfo \<rparr>,
                   categories = \<lparr> cat_genres = list_or_empty (genres podcastInfo),
                                  primary_genre = primaryGenreName podcastInfo \<rparr>,
                   stats = \<lparr> episode_count =
                               (if truthy (trackCount podcastInfo) then ToNumber (trackCount podcastInfo)
                                else Fin (real (length episodes))),
                             st_release_date = releaseDate podcastInfo,
                             st_latest_episode_date =
                               (case index episodes 0 of Val ep \<Rightarrow> releaseDate ep | _ \<Rightarrow> Undefined),
                             st_country = country podcastInfo,
                             language =
                               str_or_lit
                                 (case languageCodesISO2A podcastInfo of
                                    Val codes \<Rightarrow> index codes 0
                                  | _ \<Rightarrow> Undefined) ''en'',
                             explicit = (contentAdvisoryRating podcastInfo = Val ''Explicit'') \<rparr>,
                   episode_insights = episodeAnalysis,
                   recent_episodes = map recentEpisode_of (take 10 episodes),
                   estimated_metrics = estimateMetrics log10 podcastInfo (length episodes) \<rparr>)"

section \<open>Reading a duration back\<close>

text \<open>
  \<open>{n:02}\<close>: an integer written with at least two digits, a zero in front of a single
  one.
\<close>

definition two_digits :: "int \<Rightarrow> string" where
  "two_digits i = (if 0 \<le> i \<and> i < 10 then [CHR ''0'', digit_char (nat i)] else int_toString i)"

text \<open>
  The reverse parser of the round trip: \<open>H:MM:SS\<close> is read as \<open>H*3600 + MM*60 + SS\<close>
  seconds and \<open>M:SS\<close> as \<open>M*60 + SS\<close> seconds; anything else does not parse.
\<close>

fun split_on :: "char \<Rightarrow> string \<Rightarrow> string list" where
  "split_on c [] = [[]]"
| "split_on c (x # xs) =
     (if x = c then [] # split_on c xs
      else (case split_on c xs of [] \<Rightarrow> [[x]] | p # ps \<Rightarrow> (x # p) # ps))"

definition digit_val :: "char \<Rightarrow> nat option" where
  "digit_val c = map_of (zip ''0123456789'' [0, 1, 2, 3, 4, 5, 6, 7, 8, 9]) c"

definition parse_step :: "nat option \<Rightarrow> char \<Rightarrow> nat option" where
  "parse_step acc c =
     (case acc of None \<Rightarrow> None
      | Some a \<Rightarrow> (case digit_val c of None \<Rightarrow> None | Some d \<Rightarrow> Some (10 * a + d)))"

definition parse_nat :: "string \<Rightarrow> nat option" where
  "parse_nat s = (if s = [] then None else foldl parse_step (Some 0) s)"

definition parseDuration :: "string \<Rightarrow> nat option" where
  "parseDuration s =
     (case split_on (CHR '':'') s of
        [m, sec] \<Rightarrow>
          (case (parse_nat m, parse_nat sec) of
             (Some M, Some S) \<Rightarrow> Some (M * 60 + S)
           | _ \<Rightarrow> None)
      | [h, m, sec] \<Rightarrow>
          (case (parse_nat h, parse_nat m, parse_nat sec) of
             (Some H, Some M, Some S) \<Rightarrow> Some (H * 3600 + M * 60 + S)
           | _ \<Rightarrow> None)
      | _ \<Rightarrow> None)"

section \<open>Sample data\<close>

text \<open>An entry without keys, \<open>{}\<close>: the samples below set the keys they need.\<close>

definition emptyItem :: rawItem where
  "emptyItem =
     \<lparr> wrapperType = Undefined, kind = Undefined, trackId = Undefined, collectionId = Undefined,
       trackName = Undefined, collectionName = Undefined, collectionCensoredName = Undefined,
       artistName = Undefined, description = Undefined, releaseDate = Undefined,
       trackTimeMillis = Undefined, trackCount = Undefined, trackViewUrl = Undefined,
       collectionViewUrl = Undefined, feedUrl = Undefined, previewUrl = Undefined,
       episodeUrl = Undefined, artworkUrl60 = Undefined, artworkUrl100 = Undefined,
       artworkUrl160 = Undefined, artworkUrl600 = Undefined, contentAdvisoryRating = Undefined,
       country = Undefined, primaryGenreName = Undefined, genres = Undefined,
       languageCodesISO2A = Undefined \<rparr>"

text \<open>
  The runtime's parser on the strings the samples use: midnight UTC of 1 January 2024
  and of the Mondays after it (604800000 ms apart), and a text that is no date.
\<close>

definition Date_parse_sample :: "string \<Rightarrow> jsdate" where
  "Date_parse_sample s =
     (if s = ''2024-01-01T00:00:00Z'' then Date 1704067200000
      else if s = ''2024-01-08T00:00:00Z'' then Date 1704672000000
      else if s = ''2024-01-15T00:00:00Z'' then Date 1705276800000
      else InvalidDate)"


text \<open>
  The parser on a longer calendar: midnight UTC of 3 to 6 April 2021 and of 1 to 21
  January 2024, the two runs 1000 days apart (86400000 ms to the day).
\<close>

definition sample_calendar :: "(string \<times> int) list" where
  "sample_calendar =
     [(''2021-04-03T00:00:00Z'', 1617408000000),
      (''2021-04-04T00:00:00Z'', 1617494400000),
      (''2021-04-05T00:00:00Z'', 1617580800000),
      (''2021-04-06T00:00:00Z'', 1617667200000),
      (''2024-01-01T00:00:00Z'', 1704067200000),
      (''2024-01-02T00:00:00Z'', 1704153600000),
      (''2024-01-03T00:00:00Z'', 1704240000000),
      (''2024-01-04T00:00:00Z'', 1704326400000),
      (''2024-01-05T00:00:00Z'', 1704412800000),
      (''2024-01-06T00:00:00Z'', 1704499200000),
      (''2024-01-07T00:00:00Z'', 1704585600000),
      (''2024-01-08T00:00:00Z'', 1704672000000),
      (''2024-01-09T00:00:00Z'', 1704758400000),
      (''2024-01-10T00:00:00Z'', 1704844800000),
      (''2024-01-11T00:00:00Z'', 1704931200000),
      (''2024-01-12T00:00:00Z'', 1705017600000),
      (''2024-01-13T00:00:00Z'', 1705104000000),
      (''2024-01-14T00:00:00Z'', 1705190400000),
      (''2024-01-15T00:00:00Z'', 1705276800000),
      (''2024-01-16T00:00:00Z'', 1705363200000),
      (''2024-01-17T00:00:00Z'', 1705449600000),
      (''2024-01-18T00:00:00Z'', 1705536000000),
      (''2024-01-19T00:00:00Z'', 1705622400000),
      (''2024-01-20T00:00:00Z'', 1705708800000),
      (''2024-01-21T00:00:00Z'', 1705795200000)]"

definition Date_parse_calendar :: "string \<Rightarrow> jsdate" where
  "Date_parse_calendar s = (case map_of sample_calendar s of None \<Rightarrow> InvalidDate | Some t \<Rightarrow> Date t)"

text \<open>
  A \<open>Math.log10\<close>: at 101 the double \<open>2.0043213737826426\<close> that V8 returns, elsewhere
  the correctly rounded logarithm.
\<close>

definition log10_sample :: "real \<Rightarrow> real" where
  "log10_sample x =
     (if x = 101 then 4513330496049115 / 2251799813685248 else nearest (log 10 x))"

section \<open>Words of the specification\<close>

text \<open>The time values an analyzer works on, from the release dates it reads.\<close>

definition sorted_dates :: "(string \<Rightarrow> jsdate) \<Rightarrow> string field list \<Rightarrow> int list" where
  "sorted_dates parse releases = sort_desc (valid_times (map (newDate parse) releases))"


section \<open>Rounding to the nearest double\<close>

lemma round_even_of_int: "round_even (of_int n) = n"
  by (simp add: round_even_def)

lemma round_even_ge: "of_int a \<le> q \<Longrightarrow> a \<le> round_even q"
proof -
  assume "of_int a \<le> q"
  then have "a \<le> \<lfloor>q\<rfloor>" by (simp add: le_floor_iff)
  then show ?thesis by (auto simp add: round_even_def Let_def)
qed

lemma round_even_le: "q \<le> of_int b \<Longrightarrow> round_even q \<le> b"
proof (cases "q = of_int b")
  case True
  then show ?thesis by (simp add: round_even_of_int)
next
  case False
  assume "q \<le> of_int b"
  with False have "q < of_int b" by simp
  then have "\<lfloor>q\<rfloor> < b" by (simp add: floor_less_iff)
  then show ?thesis by (auto simp add: round_even_def Let_def)
qed

lemma round_even_less: "q < of_int b - 1 / 2 \<Longrightarrow> round_even q < b"
proof -
  assume a: "q < of_int b - 1 / 2"
  have f: "of_int \<lfloor>q\<rfloor> \<le> q" by simp
  from a have "\<lfloor>q\<rfloor> < b" by (simp add: floor_less_iff)
  moreover have "\<lfloor>q\<rfloor> + 1 < b" if "\<not> q - of_int \<lfloor>q\<rfloor> < 1 / 2"
  proof -
    from that a have "of_int \<lfloor>q\<rfloor> + 1 / 2 \<le> q" "q < of_int b - 1 / 2" by simp_all
    then have "real_of_int \<lfloor>q\<rfloor> + 1 < of_int b" by linarith
    then have "real_of_int (\<lfloor>q\<rfloor> + 1) < of_int b" by simp
    then show ?thesis by (simp only: of_int_less_iff)
  qed
  ultimately show ?thesis by (auto simp add: round_even_def Let_def)
qed

lemma log2_powi: "log 2 (2 powi k) = of_int k"
proof -
  have "(2::real) powi k = 2 powr of_int k" by (simp add: powr_real_of_int')
  then show ?thesis by simp
qed

lemma floor_log2_less:
  assumes "0 < x" "x < 2 powi k"
  shows "\<lfloor>log 2 x\<rfloor> < k"
proof -
  have "log 2 x < log 2 (2 powi k)" using assms by (simp add: log_less_cancel_iff)
  then have "log 2 x < of_int k" by (simp only: log2_powi)
  then show ?thesis by (simp add: floor_less_iff)
qed

lemma floor_log2_ge:
  assumes "2 powi k \<le> x"
  shows "k \<le> \<lfloor>log 2 x\<rfloor>"
proof -
  have p: "(0::real) < 2 powi k" by simp
  with assms have "0 < x" by linarith
  have "log 2 (2 powi k) \<le> log 2 x" using assms p \<open>0 < x\<close> by (simp add: log_le_cancel_iff)
  then have "of_int k \<le> log 2 x" by (simp only: log2_powi)
  then show ?thesis by (simp add: le_floor_iff)
qed

lemma less_powi_floor_log2:
  assumes "0 < x"
  shows "x < 2 powi (\<lfloor>log 2 x\<rfloor> + 1)"
proof -
  have "log 2 x < of_int (\<lfloor>log 2 x\<rfloor> + 1)" by linarith
  then have "log 2 x < log 2 (2 powi (\<lfloor>log 2 x\<rfloor> + 1))" by (simp only: log2_powi)
  then show ?thesis using assms by (simp add: log_less_cancel_iff)
qed

lemma expo_ge: "- 1074 \<le> expo x" "\<lfloor>log 2 \<bar>x\<bar>\<rfloor> - 52 \<le> expo x"
  by (simp_all add: expo_def)

lemma expo_le:
  assumes "x \<noteq> 0" "\<bar>x\<bar> < 2 powi (53 - int j)" "int j \<le> 1074"
  shows "expo x \<le> - int j"
proof -
  have "0 < \<bar>x\<bar>" using assms(1) by simp
  from floor_log2_less [OF this assms(2)] assms(3) show ?thesis by (simp add: expo_def)
qed

lemma abs_less_expo:
  assumes "x \<noteq> 0"
  shows "\<bar>x\<bar> < 2 powi (expo x + 53)"
proof -
  have p: "0 < \<bar>x\<bar>" using assms by simp
  have "\<lfloor>log 2 \<bar>x\<bar>\<rfloor> + 1 \<le> expo x + 53" using expo_ge(2) [of x] by simp
  then have "(2::real) powi (\<lfloor>log 2 \<bar>x\<bar>\<rfloor> + 1) \<le> 2 powi (expo x + 53)"
    by (intro power_int_increasing) simp_all
  with less_powi_floor_log2 [OF p] show ?thesis by linarith
qed

lemma expo_binade:
  assumes "2 powi k \<le> \<bar>x\<bar>" "\<bar>x\<bar> < 2 powi (k + 1)" "- 1022 \<le> k"
  shows "expo x = k - 52"
proof -
  have p: "(0::real) < 2 powi k" by simp
  with assms(1) have "0 < \<bar>x\<bar>" by linarith
  from floor_log2_less [OF this assms(2)] floor_log2_ge [OF assms(1)]
  have "\<lfloor>log 2 \<bar>x\<bar>\<rfloor> = k" by simp
  then show ?thesis using assms(3) by (simp add: expo_def)
qed

lemma grid_point:
  assumes "e \<le> - int j"
  shows "real_of_int a / 2 ^ j = of_int (a * 2 ^ nat (- int j - e)) * 2 powi e"
proof -
  have "(2::real) powi (- int j) = 2 powi (- int j - e) * 2 powi e"
    by (simp add: power_int_add [symmetric])
  moreover have "(2::real) powi (- int j - e) = 2 ^ nat (- int j - e)"
    using assms by (simp add: power_int_def)
  moreover have "(2::real) powi (- int j) = 1 / 2 ^ j"
    by (simp add: power_int_minus_divide)
  ultimately have k: "1 / (2::real) ^ j = 2 ^ nat (- int j - e) * 2 powi e" by simp
  have "real_of_int a / 2 ^ j = real_of_int a * (1 / 2 ^ j)" by simp
  also have "\<dots> = real_of_int a * (2 ^ nat (- int j - e) * 2 powi e)" by (simp only: k)
  also have "\<dots> = of_int (a * 2 ^ nat (- int j - e)) * 2 powi e" by simp
  finally show ?thesis .
qed

lemma nearest_sandwich:
  assumes lo: "real_of_int a / 2 ^ j \<le> x" and hi: "x \<le> real_of_int b / 2 ^ j"
    and small: "\<bar>x\<bar> < 2 powi (53 - int j)" and j: "int j \<le> 1074"
  shows "real_of_int a / 2 ^ j \<le> nearest x \<and> nearest x \<le> real_of_int b / 2 ^ j"
proof (cases "x = 0")
  case True
  with lo hi show ?thesis by (simp add: nearest_def)
next
  case False
  define e where "e = expo x"
  define s :: real where "s = 2 powi e"
  have s: "0 < s" by (simp add: s_def)
  have e: "e \<le> - int j" unfolding e_def by (rule expo_le [OF False small j])
  have A: "real_of_int a / 2 ^ j = of_int (a * 2 ^ nat (- int j - e)) * s"
    and B: "real_of_int b / 2 ^ j = of_int (b * 2 ^ nat (- int j - e)) * s"
    unfolding s_def by (rule grid_point [OF e])+
  have n: "nearest x = of_int (round_even (x / s)) * s"
    using False by (simp add: nearest_def e_def s_def)
  have "of_int (a * 2 ^ nat (- int j - e)) \<le> x / s"
    using lo s unfolding A by (simp add: pos_le_divide_eq)
  then have 1: "a * 2 ^ nat (- int j - e) \<le> round_even (x / s)" by (rule round_even_ge)
  have "x / s \<le> of_int (b * 2 ^ nat (- int j - e))"
    using hi s unfolding B by (simp add: pos_divide_le_eq)
  then have 2: "round_even (x / s) \<le> b * 2 ^ nat (- int j - e)" by (rule round_even_le)
  from 1 have "real_of_int (a * 2 ^ nat (- int j - e)) * s \<le> of_int (round_even (x / s)) * s"
    using s by (simp only: mult_le_cancel_right_pos of_int_le_iff)
  moreover from 2 have "of_int (round_even (x / s)) * s \<le> real_of_int (b * 2 ^ nat (- int j - e)) * s"
    using s by (simp only: mult_le_cancel_right_pos of_int_le_iff)
  ultimately show ?thesis unfolding n A B by blast
qed

lemma nearest_exact:
  assumes x: "x = of_int m * 2 powi e" and m: "\<bar>m\<bar> < 2 ^ 53" and e: "- 1074 \<le> e"
  shows "nearest x = x"
proof (cases "x = 0")
  case True
  then show ?thesis by (simp add: nearest_def)
next
  case False
  define E where "E = expo x"
  have "real_of_int \<bar>m\<bar> < 2 ^ 53" using m by (metis of_int_less_iff of_int_numeral of_int_power)
  then have "\<bar>real_of_int m\<bar> < 2 powi 53" by simp
  then have "\<bar>x\<bar> < 2 powi 53 * 2 powi e"
    unfolding x by (simp add: abs_mult)
  then have "\<bar>x\<bar> < 2 powi (53 + e)" by (simp add: power_int_add)
  moreover have "0 < \<bar>x\<bar>" using False by simp
  ultimately have "\<lfloor>log 2 \<bar>x\<bar>\<rfloor> < 53 + e" by (rule floor_log2_less [rotated])
  then have E: "E \<le> e" using e by (simp add: E_def expo_def)
  have "(2::real) powi e = 2 powi (e - E) * 2 powi E" by (simp add: power_int_add [symmetric])
  moreover have "(2::real) powi (e - E) = 2 ^ nat (e - E)" using E by (simp add: power_int_def)
  ultimately have "x = of_int (m * 2 ^ nat (e - E)) * 2 powi E" unfolding x by simp
  then have "x / 2 powi E = of_int (m * 2 ^ nat (e - E))" by simp
  then have "round_even (x / 2 powi E) = m * 2 ^ nat (e - E)" by (simp only: round_even_of_int)
  then have "nearest x = of_int (m * 2 ^ nat (e - E)) * 2 powi E"
    using False by (simp add: nearest_def E_def)
  also have "\<dots> = x" using \<open>x = of_int (m * 2 ^ nat (e - E)) * 2 powi E\<close> by simp
  finally show ?thesis .
qed

lemma nearest_of_int:
  assumes "\<bar>n\<bar> \<le> 2 ^ 53"
  shows "nearest (of_int n) = of_int n"
proof (cases "\<bar>n\<bar> < 2 ^ 53")
  case True
  show ?thesis by (rule nearest_exact [of _ n 0]) (use True in simp_all)
next
  case False
  with assms have "\<bar>n\<bar> = 2 ^ 53" by simp
  then consider "n = 2 ^ 53" | "n = - (2 ^ 53)" by (auto simp add: abs_if split: if_splits)
  then show ?thesis
  proof cases
    case 1
    show ?thesis by (rule nearest_exact [of _ 1 53]) (simp_all add: 1)
  next
    case 2
    show ?thesis by (rule nearest_exact [of _ "- 1" 53]) (simp_all add: 2)
  qed
qed

lemma rnd_small:
  assumes "\<bar>x\<bar> < 2 powi 53"
  shows "rnd x = Fin (nearest x)"
proof -
  have "real_of_int (- (2 ^ 53)) / 2 ^ 0 \<le> x" "x \<le> real_of_int (2 ^ 53) / 2 ^ 0"
    using assms by simp_all
  from nearest_sandwich [OF this] assms
  have "- (2 ^ 53) \<le> nearest x \<and> nearest x \<le> 2 ^ 53" by simp
  moreover have "(2::real) ^ 53 < 2 ^ 1024" by simp
  ultimately show ?thesis by (simp add: rnd_def Let_def)
qed

lemma rnd_of_int:
  assumes "\<bar>n\<bar> \<le> 2 ^ 53"
  shows "rnd (of_int n) = Fin (of_int n)"
proof -
  have "\<bar>real_of_int n\<bar> \<le> 2 ^ 53"
    using assms by (metis of_int_abs of_int_le_iff of_int_numeral of_int_power)
  moreover have "(2::real) ^ 53 < 2 ^ 1024" by simp
  ultimately have "\<not> 2 ^ 1024 \<le> real_of_int n" "\<not> real_of_int n \<le> - (2 ^ 1024)"
    by linarith+
  then show ?thesis by (simp add: rnd_def Let_def nearest_of_int [OF assms])
qed

lemma rnd_exact:
  assumes "x = of_int m * 2 powi e" "\<bar>m\<bar> < 2 ^ 53" "- 1074 \<le> e" "\<bar>x\<bar> < 2 ^ 1024"
  shows "rnd x = Fin x"
  using assms(4) by (simp add: rnd_def Let_def nearest_exact [OF assms(1-3)] abs_less_iff)

lemma nearest_binade:
  assumes "2 powi k \<le> \<bar>x\<bar>" "\<bar>x\<bar> < 2 powi (k + 1)" "- 1022 \<le> k"
  shows "nearest x = of_int (round_even (x / 2 powi (k - 52))) * 2 powi (k - 52)"
proof -
  have "(0::real) < 2 powi k" by simp
  with assms(1) have "0 < \<bar>x\<bar>" by linarith
  then have "x \<noteq> 0" by simp
  then show ?thesis by (simp add: nearest_def expo_binade [OF assms])
qed

lemma nearest_floor:
  assumes small: "\<bar>x\<bar> < 2 powi (53 - int j)" and j: "int j \<le> 1074"
    and frac: "x - of_int \<lfloor>x\<rfloor> < 1 - 1 / 2 ^ Suc j"
  shows "\<lfloor>nearest x\<rfloor> = \<lfloor>x\<rfloor>"
proof (cases "x = 0")
  case True
  then show ?thesis by (simp add: nearest_def)
next
  case False
  define e where "e = expo x"
  define s :: real where "s = 2 powi e"
  define N where "N = (\<lfloor>x\<rfloor> + 1) * 2 ^ nat (- e)"
  have s: "0 < s" by (simp add: s_def)
  have e: "e \<le> - int j" unfolding e_def by (rule expo_le [OF False small j])
  then have e0: "e \<le> 0" by simp
  have n: "nearest x = of_int (round_even (x / s)) * s"
    using False by (simp add: nearest_def e_def s_def)
  have "real_of_int (\<lfloor>x\<rfloor> * 2 ^ j) / 2 ^ j \<le> x" by simp
  moreover have "x \<le> real_of_int ((\<lfloor>x\<rfloor> + 1) * 2 ^ j) / 2 ^ j" by simp
  ultimately have "real_of_int (\<lfloor>x\<rfloor> * 2 ^ j) / 2 ^ j \<le> nearest x"
    using nearest_sandwich [OF _ _ small j] by blast
  then have lower: "of_int \<lfloor>x\<rfloor> \<le> nearest x" by simp
  have Ns: "of_int N * s = of_int \<lfloor>x\<rfloor> + 1"
  proof -
    have "(2::real) ^ nat (- e) * 2 powi e = 2 powi (- e) * 2 powi e"
      using e0 by (simp add: power_int_def)
    also have "\<dots> = 1" by (simp add: power_int_add [symmetric])
    finally show ?thesis by (simp add: N_def s_def mult.assoc)
  qed
  have "s \<le> 2 powi (- int j)" unfolding s_def using e by (intro power_int_increasing) simp_all
  also have "\<dots> = 1 / 2 ^ j" by (simp add: power_int_minus_divide)
  finally have "s / 2 \<le> 1 / 2 ^ Suc j" by simp
  with frac have "x < of_int \<lfloor>x\<rfloor> + 1 - s / 2" by linarith
  then have "x < of_int N * s - s / 2" by (simp only: Ns)
  then have "x < (of_int N - 1 / 2) * s" by (simp add: algebra_simps)
  then have "x / s < of_int N - 1 / 2" using s by (simp add: pos_divide_less_eq)
  then have "round_even (x / s) < N" by (rule round_even_less)
  then have "round_even (x / s) \<le> N - 1" by simp
  then have "real_of_int (round_even (x / s)) * s \<le> real_of_int (N - 1) * s"
    using s by (simp only: mult_le_cancel_right_pos of_int_le_iff)
  also have "\<dots> = of_int N * s - s" by (simp add: algebra_simps)
  also have "\<dots> < of_int \<lfloor>x\<rfloor> + 1" using s by (simp only: Ns)
  finally have upper: "nearest x < of_int \<lfloor>x\<rfloor> + 1" by (simp only: n)
  from lower upper show ?thesis by (simp add: floor_eq_iff)
qed

lemma rnd_zero: "rnd 0 = Fin 0"
  using rnd_of_int [of 0] by simp

lemma rnd_one: "rnd 1 = Fin 1"
  using rnd_of_int [of 1] by simp

lemma rnd_numeral: "(numeral k :: int) \<le> 2 ^ 53 \<Longrightarrow> rnd (numeral k) = Fin (numeral k)"
  using rnd_of_int [of "numeral k"] by simp

lemma rnd_of_nat:
  assumes "n \<le> 2 ^ 53"
  shows "rnd (real n) = Fin (real n)"
proof -
  have "int n \<le> 2 ^ 53" using assms by (metis of_nat_le_iff of_nat_numeral of_nat_power)
  then have "\<bar>int n\<bar> \<le> 2 ^ 53" by simp
  from rnd_of_int [OF this] show ?thesis by simp
qed

lemma nearest_nonneg:
  assumes "0 \<le> x" "x < 2 powi 53"
  shows "0 \<le> nearest x"
proof -
  have "real_of_int 0 / 2 ^ 0 \<le> x" "x \<le> real_of_int (2 ^ 53) / 2 ^ 0" "\<bar>x\<bar> < 2 powi (53 - int 0)"
    using assms by simp_all
  from nearest_sandwich [OF this] show ?thesis by simp
qed

text \<open>
  The floor of a rounded quotient of integers is the integer quotient, as long as the
  quotient leaves room for the fraction below the next integer.
\<close>

lemma floor_nearest_quot:
  assumes b: "0 < b" "real_of_int b < 2 ^ Suc j"
    and small: "\<bar>real_of_int a / of_int b\<bar> < 2 powi (53 - int j)" and j: "int j \<le> 1074"
  shows "\<lfloor>nearest (real_of_int a / of_int b)\<rfloor> = a div b"
proof -
  define x where "x = real_of_int a / of_int b"
  have fl: "\<lfloor>x\<rfloor> = a div b" unfolding x_def by (rule floor_divide_of_int_eq)
  have bpos: "0 < real_of_int b" using b(1) by simp
  have "a = b * (a div b) + a mod b" by simp
  then have "real_of_int a = of_int b * of_int (a div b) + of_int (a mod b)"
    by (metis of_int_add of_int_mult)
  then have "x = of_int (a div b) + of_int (a mod b) / of_int b"
    unfolding x_def using bpos by (simp add: field_simps)
  then have "x - of_int (a div b) = of_int (a mod b) / of_int b" by linarith
  then have fr: "x - of_int \<lfloor>x\<rfloor> = of_int (a mod b) / of_int b" by (simp only: fl)
  have "a mod b \<le> b - 1" using b(1) pos_mod_bound [of b a] by linarith
  then have "real_of_int (a mod b) \<le> of_int b - 1" by linarith
  then have "of_int (a mod b) / real_of_int b \<le> (of_int b - 1) / of_int b"
    using bpos by (simp add: divide_right_mono)
  also have "\<dots> = 1 - 1 / of_int b" using bpos by (simp add: field_simps)
  also have "\<dots> < 1 - 1 / 2 ^ Suc j"
  proof -
    have "1 / (2::real) ^ Suc j < 1 / of_int b"
      using bpos b(2) by (intro divide_strict_left_mono) simp_all
    then show ?thesis by linarith
  qed
  finally have "x - of_int \<lfloor>x\<rfloor> < 1 - 1 / 2 ^ Suc j" by (simp only: fr)
  from nearest_floor [OF small [folded x_def] j this] have "\<lfloor>nearest x\<rfloor> = a div b"
    by (simp only: fl)
  then show ?thesis by (simp only: x_def)
qed

section \<open>Properties of the duration format\<close>

lemma nat_toString_small: "n < 10 \<Longrightarrow> nat_toString n = [digit_char n]"
  by (simp add: nat_toString.simps)

lemma nat_toString_large:
  "10 \<le> n \<Longrightarrow> nat_toString n = nat_toString (n div 10) @ [digit_char (n mod 10)]"
  by (subst nat_toString.simps) simp

lemma nat_toString_nonempty: "nat_toString n \<noteq> []"
  by (subst nat_toString.simps) simp

lemma length_nat_toString_large: "10 \<le> n \<Longrightarrow> 2 \<le> length (nat_toString n)"
proof -
  assume "10 \<le> n"
  moreover have "1 \<le> length (nat_toString (n div 10))"
    using nat_toString_nonempty [of "n div 10"] by (cases "nat_toString (n div 10)") auto
  ultimately show ?thesis by (simp add: nat_toString_large)
qed

lemma int_toString_small:
  assumes "0 \<le> i" "i \<le> 2 ^ 53"
  shows "int_toString i = nat_toString (nat i)"
proof -
  have "nat i \<le> nat (2 ^ 53)" using assms(2) by (rule nat_mono)
  then have "nat i \<le> 2 ^ 53" by simp
  then show ?thesis using assms(1) by (simp add: int_toString_def mag_toString_def)
qed

lemma padStart_two_digits:
  assumes "0 \<le> i" "i \<le> 2 ^ 53"
  shows "padStart (int_toString i) 2 (CHR ''0'') = two_digits i"
proof (cases "i < 10")
  case True
  with assms(1) have "nat i < 10" by simp
  with True assms show ?thesis
    by (simp add: padStart_def two_digits_def int_toString_small nat_toString_small)
next
  case False
  then have "10 \<le> nat i" by simp
  from length_nat_toString_large [OF this] False assms show ?thesis
    by (simp add: padStart_def two_digits_def int_toString_small)
qed

lemma js_rem_int:
  assumes "0 \<le> a" "0 < b"
  shows "js_rem (Fin (of_int a)) (Fin (of_int b)) = Fin (of_int (a mod b))"
proof -
  have q: "0 \<le> real_of_int a / of_int b" using assms by simp
  have f: "\<lfloor>real_of_int a / of_int b\<rfloor> = a div b" by (rule floor_divide_of_int_eq)
  have "a - b * (a div b) = a mod b" by (simp add: minus_mult_div_eq_mod)
  then have "real_of_int a - of_int b * of_int (a div b) = of_int (a mod b)"
    by (metis of_int_diff of_int_mult)
  then show ?thesis using assms(2) q by (simp add: f)
qed

lemma Math_floor_js_div_int:
  assumes "0 < b" "real_of_int b < 2 ^ Suc j"
    and "\<bar>real_of_int a / of_int b\<bar> < 2 powi (53 - int j)" and "int j \<le> 1074"
  shows "Math_floor (js_div (Fin (of_int a)) (Fin (of_int b))) = Fin (of_int (a div b))"
proof -
  have "(2::real) powi (53 - int j) \<le> 2 powi 53" by (intro power_int_increasing) simp_all
  with assms(3) have "\<bar>real_of_int a / of_int b\<bar> < 2 powi 53" by linarith
  from rnd_small [OF this] assms(1) floor_nearest_quot [OF assms] show ?thesis by simp
qed

text \<open>Below \<open>2 ^ 53\<close> milliseconds the total seconds are a natural number below \<open>2 ^ 44\<close>.\<close>

lemma totalSeconds_range:
  assumes "0 \<le> x" "x < 2 ^ 53"
  shows "\<exists>t. Math_floor (js_div (Fin x) (Fin 1000)) = Fin (of_int t) \<and> 0 \<le> t \<and> t \<le> 2 ^ 44"
proof -
  define q where "q = x / 1000"
  have q: "0 \<le> q" "q \<le> 2 ^ 44" using assms by (simp_all add: q_def)
  then have s: "\<bar>q\<bar> < 2 powi 53" by simp
  have "real_of_int 0 / 2 ^ 0 \<le> q" "q \<le> real_of_int (2 ^ 44) / 2 ^ 0" "\<bar>q\<bar> < 2 powi (53 - int 0)"
    using q by simp_all
  from nearest_sandwich [OF this] have n: "0 \<le> nearest q" "nearest q \<le> 2 ^ 44" by simp_all
  from n(1) have lo: "0 \<le> \<lfloor>nearest q\<rfloor>" by simp
  have "real_of_int \<lfloor>nearest q\<rfloor> \<le> nearest q" by (rule of_int_floor_le)
  with n(2) have "real_of_int \<lfloor>nearest q\<rfloor> \<le> 2 ^ 44" by linarith
  then have "real_of_int \<lfloor>nearest q\<rfloor> \<le> real_of_int (2 ^ 44)" by simp
  then have hi: "\<lfloor>nearest q\<rfloor> \<le> 2 ^ 44" by (simp only: of_int_le_iff)
  have "Math_floor (js_div (Fin x) (Fin 1000)) = Fin (of_int \<lfloor>nearest q\<rfloor>)"
    using rnd_small [OF s] by (simp add: q_def)
  with lo hi show ?thesis by blast
qed

lemma totalSeconds_int:
  assumes "0 \<le> k" "k < 2 ^ 53"
  shows "Math_floor (js_div (Fin (of_int k)) (Fin 1000)) = Fin (of_int (k div 1000))"
proof -
  have "real_of_int k < real_of_int (2 ^ 53)" using assms(2) by (simp only: of_int_less_iff)
  then have "real_of_int k < 2 ^ 53" by simp
  then have "\<bar>real_of_int k / of_int 1000\<bar> < 2 powi (53 - int 9)" using assms(1) by simp
  moreover have "(0::int) < 1000" "real_of_int 1000 < 2 ^ Suc 9" "int 9 \<le> 1074" by simp_all
  ultimately have "Math_floor (js_div (Fin (of_int k)) (Fin (of_int 1000))) = Fin (of_int (k div 1000))"
    using Math_floor_js_div_int [of 1000 9 k] by blast
  then show ?thesis by simp
qed



text \<open>
  From total seconds \<open>t\<close> up to \<open>2 ^ 44\<close> the three fields are the integer quotients and
  remainders: no division rounds across an integer.
\<close>

lemma formatDuration_seconds:
  assumes x: "x \<noteq> 0" and ts: "Math_floor (js_div (Fin x) (Fin 1000)) = Fin (of_int t)"
    and t: "0 \<le> t" "t \<le> 2 ^ 44"
  shows "formatDuration (Val (Fin x)) =
     (if t div 3600 > 0
      then nat_toString (nat (t div 3600)) @ '':'' @ two_digits (t mod 3600 div 60) @ '':'' @ two_digits (t mod 60)
      else nat_toString (nat (t mod 3600 div 60)) @ '':'' @ two_digits (t mod 60))"
proof -
  have tr: "real_of_int t \<le> 2 ^ 44"
  proof -
    have "real_of_int t \<le> real_of_int (2 ^ 44)" using t(2) by (simp only: of_int_le_iff)
    then show ?thesis by simp
  qed
  have t0: "0 \<le> real_of_int t" using t(1) by simp
  have "\<bar>real_of_int t / of_int 3600\<bar> < 2 powi (53 - int 11)" using tr t0 by simp
  moreover have "(0::int) < 3600" "real_of_int 3600 < 2 ^ Suc 11" "int 11 \<le> 1074" by simp_all
  ultimately have "Math_floor (js_div (Fin (of_int t)) (Fin (of_int 3600))) = Fin (of_int (t div 3600))"
    using Math_floor_js_div_int [of 3600 11 t] by blast
  then have hours: "Math_floor (js_div (Fin (of_int t)) (Fin 3600)) = Fin (of_int (t div 3600))"
    by simp
  have "js_rem (Fin (of_int t)) (Fin (of_int 3600)) = Fin (of_int (t mod 3600))"
    by (rule js_rem_int) (use t in simp_all)
  then have r3600: "js_rem (Fin (of_int t)) (Fin 3600) = Fin (of_int (t mod 3600))" by simp
  have "js_rem (Fin (of_int t)) (Fin (of_int 60)) = Fin (of_int (t mod 60))"
    by (rule js_rem_int) (use t in simp_all)
  then have seconds: "js_rem (Fin (of_int t)) (Fin 60) = Fin (of_int (t mod 60))" by simp
  have m: "0 \<le> t mod 3600" "t mod 3600 < 3600" by simp_all
  then have "0 \<le> real_of_int (t mod 3600)" "real_of_int (t mod 3600) < 3600" by linarith+
  then have "\<bar>real_of_int (t mod 3600) / of_int 60\<bar> < 2 powi (53 - int 5)" by simp
  moreover have "(0::int) < 60" "real_of_int 60 < 2 ^ Suc 5" "int 5 \<le> 1074" by simp_all
  ultimately have "Math_floor (js_div (Fin (of_int (t mod 3600))) (Fin (of_int 60)))
      = Fin (of_int (t mod 3600 div 60))"
    using Math_floor_js_div_int [of 60 5 "t mod 3600"] by blast
  then have minutes: "Math_floor (js_div (Fin (of_int (t mod 3600))) (Fin 60))
      = Fin (of_int (t mod 3600 div 60))" by simp
  have h: "0 \<le> t div 3600" "t div 3600 \<le> 2 ^ 53"
  proof -
    show "0 \<le> t div 3600" using t(1) by (simp add: pos_imp_zdiv_nonneg_iff)
    have "t div 3600 \<le> t" using zdiv_mono2 [of t 1 3600] t(1) by simp
    also have "\<dots> \<le> 2 ^ 53" using t(2) by simp
    finally show "t div 3600 \<le> 2 ^ 53" .
  qed
  have mi: "0 \<le> t mod 3600 div 60" "t mod 3600 div 60 \<le> 2 ^ 53"
  proof -
    show "0 \<le> t mod 3600 div 60" using m(1) by (simp add: pos_imp_zdiv_nonneg_iff)
    have "t mod 3600 div 60 \<le> t mod 3600" using zdiv_mono2 [of "t mod 3600" 1 60] m(1) by simp
    also have "\<dots> \<le> 2 ^ 53" using m(2) by simp
    finally show "t mod 3600 div 60 \<le> 2 ^ 53" .
  qed
  have s: "0 \<le> t mod 60" "t mod 60 \<le> 2 ^ 53"
  proof -
    show "0 \<le> t mod 60" by simp
    have "t mod 60 < 60" by simp
    then show "t mod 60 \<le> 2 ^ 53" by simp
  qed
  have "formatDuration (Val (Fin x)) =
     (if t div 3600 > 0
      then int_toString (t div 3600) @ '':'' @ padStart (int_toString (t mod 3600 div 60)) 2 (CHR ''0'')
             @ '':'' @ padStart (int_toString (t mod 60)) 2 (CHR ''0'')
      else int_toString (t mod 3600 div 60) @ '':'' @ padStart (int_toString (t mod 60)) 2 (CHR ''0''))"
    using x by (simp add: formatDuration_def ts hours r3600 seconds minutes del: js_div.simps js_rem.simps)
  then have "formatDuration (Val (Fin x)) =
     (if t div 3600 > 0
      then int_toString (t div 3600) @ '':'' @ two_digits (t mod 3600 div 60) @ '':'' @ two_digits (t mod 60)
      else int_toString (t mod 3600 div 60) @ '':'' @ two_digits (t mod 60))"
    by (simp only: padStart_two_digits [OF mi] padStart_two_digits [OF s])
  then show ?thesis
    by (simp only: int_toString_small [OF h] int_toString_small [OF mi])
qed

lemma formatDuration_int:
  assumes "0 < k" "k < 2 ^ 53"
  shows "formatDuration (Val (Fin (of_int k))) =
     (let t = k div 1000
      in if t div 3600 > 0
         then nat_toString (nat (t div 3600)) @ '':'' @ two_digits (t mod 3600 div 60) @ '':'' @ two_digits (t mod 60)
         else nat_toString (nat (t mod 3600 div 60)) @ '':'' @ two_digits (t mod 60))"
proof -
  have k0: "0 \<le> k" using assms(1) by simp
  have x: "real_of_int k \<noteq> 0" using assms(1) by simp
  have t: "0 \<le> k div 1000" "k div 1000 \<le> 2 ^ 44"
  proof -
    show "0 \<le> k div 1000" using k0 by (simp add: pos_imp_zdiv_nonneg_iff)
    have "k div 1000 \<le> 2 ^ 53 div 1000" using assms(2) by (intro zdiv_mono1) simp_all
    also have "\<dots> \<le> 2 ^ 44" by simp
    finally show "k div 1000 \<le> 2 ^ 44" .
  qed
  from formatDuration_seconds [OF x totalSeconds_int [OF k0 assms(2)] t]
  show ?thesis by (simp only: Let_def)
qed



text \<open>An infinite duration goes through the template as \<open>Infinity:NaN:NaN\<close>.\<close>

lemma formatDuration_Infinity: "formatDuration (Val PInf) = ''Infinity:NaN:NaN''"
  by (simp add: formatDuration_def padStart_def)



section \<open>The round trip of a duration\<close>

lemma digit_cases:
  "d < 10 \<Longrightarrow> d = 0 \<or> d = 1 \<or> d = 2 \<or> d = 3 \<or> d = 4 \<or> d = 5 \<or> d = 6 \<or> d = 7 \<or> d = 8 \<or> d = (9::nat)"
  by arith

lemma digit_val_digit_char: "d < 10 \<Longrightarrow> digit_val (digit_char d) = Some d"
  using digit_cases [of d] by (auto simp: digit_val_def digit_char_def)

lemma digit_char_not_colon: "d < 10 \<Longrightarrow> digit_char d \<noteq> CHR '':''"
  using digit_cases [of d] by (auto simp: digit_char_def)

lemma parse_digits_nat_toString: "foldl parse_step (Some 0) (nat_toString n) = Some n"
proof (induction n rule: nat_toString.induct)
  case (1 n)
  show ?case
  proof (cases "n < 10")
    case True
    then show ?thesis
      by (simp add: nat_toString_small parse_step_def digit_val_digit_char)
  next
    case False
    with 1 show ?thesis
      by (simp add: nat_toString_large parse_step_def digit_val_digit_char)
  qed
qed

lemma parse_nat_nat_toString: "parse_nat (nat_toString n) = Some n"
  by (simp add: parse_nat_def nat_toString_nonempty parse_digits_nat_toString)

lemma colon_notin_nat_toString: "CHR '':'' \<notin> set (nat_toString n)"
proof (induction n rule: nat_toString.induct)
  case (1 n)
  show ?case
  proof (cases "n < 10")
    case True
    then show ?thesis using digit_char_not_colon [of n]
      by (auto simp add: nat_toString_small)
  next
    case False
    with 1 show ?thesis using digit_char_not_colon [of "n mod 10"]
      by (auto simp add: nat_toString_large)
  qed
qed

lemma digit_val_zero: "digit_val (CHR ''0'') = Some 0"
  by (simp add: digit_val_def)

lemma parse_nat_two_digits:
  assumes "0 \<le> i" "i \<le> 2 ^ 53"
  shows "parse_nat (two_digits i) = Some (nat i)"
proof (cases "i < 10")
  case True
  with assms(1) have "nat i < 10" by simp
  with True assms(1) show ?thesis
    by (simp add: two_digits_def parse_nat_def parse_step_def digit_val_digit_char digit_val_zero)
next
  case False
  then show ?thesis
    by (simp add: two_digits_def int_toString_small [OF assms] parse_nat_nat_toString)
qed

lemma colon_notin_two_digits:
  assumes "0 \<le> i" "i \<le> 2 ^ 53"
  shows "CHR '':'' \<notin> set (two_digits i)"
proof (cases "i < 10")
  case True
  with assms(1) have "nat i < 10" by simp
  from digit_char_not_colon [OF this] True assms(1) show ?thesis
    by (auto simp add: two_digits_def)
next
  case False
  then show ?thesis
    by (simp add: two_digits_def int_toString_small [OF assms] colon_notin_nat_toString)
qed

lemma split_on_none: "c \<notin> set s \<Longrightarrow> split_on c s = [s]"
  by (induction s) auto

lemma split_on_append: "c \<notin> set a \<Longrightarrow> split_on c (a @ c # b) = a # split_on c b"
  by (induction a) auto

lemma parseDuration_ms:
  assumes "0 \<le> s" "s \<le> 2 ^ 53"
  shows "parseDuration (nat_toString m @ '':'' @ two_digits s) = Some (m * 60 + nat s)"
proof -
  have "split_on (CHR '':'') (nat_toString m @ CHR '':'' # two_digits s)
      = [nat_toString m, two_digits s]"
    by (simp add: split_on_append split_on_none colon_notin_nat_toString
        colon_notin_two_digits [OF assms])
  then show ?thesis
    by (simp add: parseDuration_def parse_nat_nat_toString parse_nat_two_digits [OF assms])
qed

lemma parseDuration_hms:
  assumes "0 \<le> m" "m \<le> 2 ^ 53" "0 \<le> s" "s \<le> 2 ^ 53"
  shows "parseDuration (nat_toString h @ '':'' @ two_digits m @ '':'' @ two_digits s)
       = Some (h * 3600 + nat m * 60 + nat s)"
proof -
  have "split_on (CHR '':'') (nat_toString h @ CHR '':'' # (two_digits m @ CHR '':'' # two_digits s))
      = [nat_toString h, two_digits m, two_digits s]"
    by (simp add: split_on_append split_on_none colon_notin_nat_toString
        colon_notin_two_digits [OF assms(1,2)] colon_notin_two_digits [OF assms(3,4)])
  then show ?thesis
    by (simp add: parseDuration_def parse_nat_nat_toString parse_nat_two_digits [OF assms(1,2)]
        parse_nat_two_digits [OF assms(3,4)])
qed

lemma hms_recompose:
  assumes "0 \<le> (t::int)"
  shows "nat (t div 3600) * 3600 + nat (t mod 3600 div 60) * 60 + nat (t mod 60) = nat t"
proof -
  define n where "n = nat t"
  have t: "t = int n" using assms by (simp add: n_def)
  have "n mod 3600 mod 60 = n mod 60" by (simp add: mod_mod_cancel)
  then have "(n mod 3600 div 60) * 60 + n mod 60 = n mod 3600"
    using div_mult_mod_eq [of "n mod 3600" 60] by simp
  then have "n div 3600 * 3600 + (n mod 3600 div 60) * 60 + n mod 60 = n"
    using div_mult_mod_eq [of n 3600] by linarith
  moreover have "nat (t div 3600) = n div 3600" "nat (t mod 3600 div 60) = n mod 3600 div 60"
    "nat (t mod 60) = n mod 60"
    unfolding t by (simp_all add: nat_div_distrib nat_mod_distrib)
  ultimately show ?thesis by (simp add: n_def)
qed

lemma parseDuration_seconds:
  assumes x: "x \<noteq> 0" and ts: "Math_floor (js_div (Fin x) (Fin 1000)) = Fin (of_int t)"
    and t: "0 \<le> t" "t \<le> 2 ^ 44"
  shows "parseDuration (formatDuration (Val (Fin x))) = Some (nat t)"
proof -
  have m: "0 \<le> t mod 3600 div 60" "t mod 3600 div 60 \<le> 2 ^ 53"
  proof -
    have r: "0 \<le> t mod 3600" "t mod 3600 < 3600" by simp_all
    show "0 \<le> t mod 3600 div 60" using r(1) by (simp add: pos_imp_zdiv_nonneg_iff)
    have "t mod 3600 div 60 \<le> t mod 3600" using zdiv_mono2 [of "t mod 3600" 1 60] r(1) by simp
    also have "\<dots> \<le> 2 ^ 53" using r(2) by simp
    finally show "t mod 3600 div 60 \<le> 2 ^ 53" .
  qed
  have s: "0 \<le> t mod 60" "t mod 60 \<le> 2 ^ 53"
  proof -
    show "0 \<le> t mod 60" by simp
    have "t mod 60 < 60" by simp
    then show "t mod 60 \<le> 2 ^ 53" by simp
  qed
  have h: "0 \<le> t div 3600" using t(1) by (simp add: pos_imp_zdiv_nonneg_iff)
  note fmt = formatDuration_seconds [OF x ts t]
  show ?thesis
  proof (cases "t div 3600 > 0")
    case True
    then have "parseDuration (formatDuration (Val (Fin x)))
        = Some (nat (t div 3600) * 3600 + nat (t mod 3600 div 60) * 60 + nat (t mod 60))"
      using parseDuration_hms [OF m s] by (simp only: fmt if_True)
    then show ?thesis by (simp only: hms_recompose [OF t(1)])
  next
    case False
    with h have z: "t div 3600 = 0" by simp
    have "parseDuration (formatDuration (Val (Fin x)))
        = Some (nat (t mod 3600 div 60) * 60 + nat (t mod 60))"
      using parseDuration_ms [OF s] False by (simp only: fmt if_False)
    moreover have "nat (t mod 3600 div 60) * 60 + nat (t mod 60) = nat t"
      using hms_recompose [OF t(1)] by (simp only: z nat_0 mult_zero_left add_0)
    ultimately show ?thesis by (simp only:)
  qed
qed

lemma parseDuration_zero: "parseDuration (formatDuration (Val (Fin 0))) = Some 0"
  by (simp add: formatDuration_def parseDuration_def parse_nat_def parse_step_def digit_val_def)

text \<open>
  C8, as the code has it. For every number \<open>ms\<close> with \<open>0 \<le> ms < 2 ^ 53\<close>, reading
  \<open>formatDuration(ms)\<close> back (\<open>H:MM:SS\<close> as \<open>H*3600 + MM*60 + SS\<close>, \<open>M:SS\<close> as
  \<open>M*60 + SS\<close>) gives the total seconds the function computed, \<open>Math.floor(ms / 1000)\<close>;
  for an integer \<open>ms\<close> these are \<open>floor(ms/1000)\<close> exactly.
\<close>

theorem formatDuration_roundtrip:
  "(0 \<le> x \<and> x < 2 ^ 53 \<longrightarrow>
      (\<exists>t. Math_floor (js_div (Fin x) (Fin 1000)) = Fin (real t) \<and>
           parseDuration (formatDuration (Val (Fin x))) = Some t)) \<and>
   (0 \<le> k \<and> k < 2 ^ 53 \<longrightarrow>
      parseDuration (formatDuration (Val (Fin (of_int k)))) = Some (nat (k div 1000)))"
proof (intro conjI impI)
  assume a: "0 \<le> x \<and> x < 2 ^ 53"
  then obtain t where t: "Math_floor (js_div (Fin x) (Fin 1000)) = Fin (of_int t)" "0 \<le> t" "t \<le> 2 ^ 44"
    using totalSeconds_range [of x] by blast
  have r: "real_of_int t = real (nat t)" using t(2) by simp
  show "\<exists>t. Math_floor (js_div (Fin x) (Fin 1000)) = Fin (real t) \<and>
           parseDuration (formatDuration (Val (Fin x))) = Some t"
  proof (cases "x = 0")
    case True
    have "Math_floor (js_div (Fin 0) (Fin 1000)) = Fin (real 0)" by (simp add: rnd_zero)
    with parseDuration_zero True show ?thesis by blast
  next
    case False
    from parseDuration_seconds [OF False t] t(1) [unfolded r] show ?thesis by blast
  qed
next
  assume a: "0 \<le> k \<and> k < 2 ^ 53"
  then have k: "0 \<le> k" "k < 2 ^ 53" by blast+
  have t: "0 \<le> k div 1000" "k div 1000 \<le> 2 ^ 44"
  proof -
    show "0 \<le> k div 1000" using k(1) by (simp add: pos_imp_zdiv_nonneg_iff)
    have "k div 1000 \<le> 2 ^ 53 div 1000" using k(2) by (intro zdiv_mono1) simp_all
    also have "\<dots> \<le> 2 ^ 44" by simp
    finally show "k div 1000 \<le> 2 ^ 44" .
  qed
  show "parseDuration (formatDuration (Val (Fin (of_int k)))) = Some (nat (k div 1000))"
  proof (cases "k = 0")
    case True
    with parseDuration_zero show ?thesis by simp
  next
    case False
    then have "real_of_int k \<noteq> 0" by simp
    from parseDuration_seconds [OF this totalSeconds_int [OF k] t] show ?thesis .
  qed
qed

theorem formatDuration_roundtrip_witness:
  "(0::int) \<le> 3725999 \<and> (3725999::int) < 2 ^ 53 \<and>
   formatDuration (Val (Fin 3725999)) = ''1:02:05'' \<and>
   parseDuration (formatDuration (Val (Fin 3725999))) = Some 3725"
proof -
  have h: "(0::int) \<le> 3725999 \<and> (3725999::int) < 2 ^ 53" by simp
  have f: "formatDuration (Val (Fin 3725999)) = ''1:02:05''"
    using formatDuration_int [of 3725999]
    by (simp add: nat_toString.simps two_digits_def digit_char_def)
  from h have "parseDuration (formatDuration (Val (Fin (of_int 3725999)))) = Some (nat (3725999 div 1000))"
    using formatDuration_roundtrip [of _ 3725999] by blast
  then have "parseDuration (formatDuration (Val (Fin 3725999))) = Some 3725" by simp
  with h f show ?thesis by blast
qed

section \<open>Durations written with an exponent\<close>

lemma closer_cases: "closer m k a b = a \<or> closer m k a b = b"
  by (simp add: closer_def Let_def)

lemma foldl_closer_mem: "foldl (closer m k) c cs \<in> set (c # cs)"
proof (induction cs arbitrary: c)
  case Nil
  then show ?case by simp
next
  case (Cons b cs)
  from closer_cases [of m k c b] Cons [of "closer m k c b"] show ?case by auto
qed

lemma candidates_snd:
  "c \<in> set (candidates m k) \<Longrightarrow>
     snd c = length (nat_toString m) \<or> snd c = Suc (length (nat_toString m))"
  by (auto simp add: candidates_def split: if_splits)

lemma shortest_from_snd:
  "snd (shortest_from m k fuel) = length (nat_toString m) \<or>
   snd (shortest_from m k fuel) = Suc (length (nat_toString m))"
proof (induction fuel arbitrary: k)
  case 0
  then show ?case by simp
next
  case (Suc fuel)
  show ?case
  proof (cases "candidates m k")
    case Nil
    with Suc [of "Suc k"] show ?thesis by simp
  next
    case (Cons c cs)
    have "foldl (closer m k) c cs \<in> set (candidates m k)"
      using foldl_closer_mem [of m k c cs] by (simp only: Cons)
    from candidates_snd [OF this] Cons show ?thesis by simp
  qed
qed

lemma shortest_exponent: "length (nat_toString m) \<le> snd (shortest m)"
  using shortest_from_snd [of m 1 17] by (auto simp add: shortest_def)

text \<open>
  An integer beyond \<open>2 ^ 53\<close> of 22 digits or more is written with an exponent: the text
  has an \<open>e\<close>, after a mantissa without a colon.
\<close>

lemma mag_toString_exponent:
  assumes "2 ^ 53 < m" "22 \<le> length (nat_toString m)"
  shows "\<exists>mant ex. mag_toString m = mant @ CHR ''e'' # ex \<and> CHR '':'' \<notin> set mant \<and> CHR '':'' \<notin> set ex"
proof -
  obtain s n where sn: "shortest m = (s, n)" by (cases "shortest m")
  define ds where "ds = nat_toString s"
  define mant where "mant = (if length ds = 1 then ds else hd ds # CHR ''.'' # tl ds)"
  have "22 \<le> n" using shortest_exponent [of m] assms(2) by (simp add: sn)
  then have n: "\<not> n \<le> 21" by simp
  have "mag_toString m = mant @ CHR ''e'' # (CHR ''+'' # nat_toString (n - 1))"
    using assms(1) n by (simp add: mag_toString_def sn ds_def mant_def Let_def)
  moreover have "CHR '':'' \<notin> set mant"
  proof -
    have c: "CHR '':'' \<notin> set ds" unfolding ds_def by (rule colon_notin_nat_toString)
    have ne: "ds \<noteq> []" unfolding ds_def by (rule nat_toString_nonempty)
    then have "hd ds \<in> set ds" by simp
    moreover have "set (tl ds) \<subseteq> set ds" using ne by (cases ds) auto
    ultimately show ?thesis using c by (auto simp add: mant_def)
  qed
  moreover have "CHR '':'' \<notin> set (CHR ''+'' # nat_toString (n - 1))"
    using colon_notin_nat_toString [of "n - 1"] by simp
  ultimately show ?thesis by blast
qed

lemma foldl_parse_step_None: "foldl parse_step None s = None"
  by (induction s) (simp_all add: parse_step_def)

lemma parse_nat_nondigit:
  assumes "digit_val c = None"
  shows "parse_nat (a @ c # b) = None"
proof -
  have "parse_step (foldl parse_step (Some 0) a) c = None"
    using assms by (cases "foldl parse_step (Some 0) a") (simp_all add: parse_step_def)
  then show ?thesis by (simp add: parse_nat_def foldl_parse_step_None)
qed

lemma parseDuration_exponent:
  assumes "CHR '':'' \<notin> set mant" "CHR '':'' \<notin> set ex" "CHR '':'' \<notin> set b" "CHR '':'' \<notin> set c"
  shows "parseDuration ((mant @ CHR ''e'' # ex) @ '':'' @ b @ '':'' @ c) = None"
proof -
  have n: "CHR '':'' \<notin> set (mant @ CHR ''e'' # ex)" using assms(1,2) by simp
  have "(mant @ CHR ''e'' # ex) @ '':'' @ b @ '':'' @ c
      = (mant @ CHR ''e'' # ex) @ CHR '':'' # (b @ CHR '':'' # c)" by simp
  then have "split_on (CHR '':'') ((mant @ CHR ''e'' # ex) @ '':'' @ b @ '':'' @ c)
      = [mant @ CHR ''e'' # ex, b, c]"
    using split_on_append [OF n, of "b @ CHR '':'' # c"] split_on_append [OF assms(3), of c]
      split_on_none [OF assms(4)] by (simp only:)
  moreover have "parse_nat (mant @ CHR ''e'' # ex) = None"
    by (rule parse_nat_nondigit) (simp add: digit_val_def)
  ultimately show ?thesis by (simp add: parseDuration_def)
qed

lemma length_nat_toString_2_70: "length (nat_toString (2 ^ 70)) = 22"
  by (simp add: nat_toString.simps)

text \<open>
  \<open>3600000 * 2 ^ 70\<close> milliseconds are \<open>2 ^ 70\<close> hours exactly, a number of 22 digits:
  the hours are written with an exponent, and the text does not read back.
\<close>

theorem formatDuration_exponent_counterexample:
  "Math_floor (js_div (Fin (3600000 * 2 ^ 70)) (Fin 1000)) = Fin (3600 * 2 ^ 70) \<and>
   Math_floor (js_div (Fin (3600 * 2 ^ 70)) (Fin 3600)) = Fin (2 ^ 70) \<and>
   parseDuration (formatDuration (Val (Fin (3600000 * 2 ^ 70)))) = None"
proof -
  have e1: "rnd (3600 * 2 ^ 70) = Fin (3600 * 2 ^ 70)"
    by (rule rnd_exact [of _ 225 74]) simp_all
  have e2: "rnd (2 ^ 70) = Fin (2 ^ 70)"
    by (rule rnd_exact [of _ 1 70]) simp_all
  have ts: "Math_floor (js_div (Fin (3600000 * 2 ^ 70)) (Fin 1000)) = Fin (3600 * 2 ^ 70)"
  proof -
    have "(3600000 * 2 ^ 70 :: real) / 1000 = 3600 * 2 ^ 70" by simp
    then have "js_div (Fin (3600000 * 2 ^ 70)) (Fin 1000) = Fin (3600 * 2 ^ 70)"
      using e1 by simp
    moreover have "real_of_int \<lfloor>3600 * 2 ^ 70 :: real\<rfloor> = 3600 * 2 ^ 70"
    proof -
      have "(3600 * 2 ^ 70 :: real) = real_of_int (3600 * 2 ^ 70)" by simp
      then show ?thesis by (simp only: floor_of_int)
    qed
    ultimately show ?thesis by (simp only: Math_floor.simps)
  qed
  have hs: "Math_floor (js_div (Fin (3600 * 2 ^ 70)) (Fin 3600)) = Fin (2 ^ 70)"
  proof -
    have "(3600 * 2 ^ 70 :: real) / 3600 = 2 ^ 70" by simp
    then have "js_div (Fin (3600 * 2 ^ 70)) (Fin 3600) = Fin (2 ^ 70)"
      using e2 by simp
    moreover have "real_of_int \<lfloor>2 ^ 70 :: real\<rfloor> = 2 ^ 70"
    proof -
      have "(2 ^ 70 :: real) = real_of_int (2 ^ 70)" by simp
      then show ?thesis by (simp only: floor_of_int)
    qed
    ultimately show ?thesis by (simp only: Math_floor.simps)
  qed
  have r1: "js_rem (Fin (3600 * 2 ^ 70)) (Fin 3600) = Fin 0"
    using js_rem_int [of "3600 * 2 ^ 70" 3600] by simp
  have r2: "js_rem (Fin (3600 * 2 ^ 70)) (Fin 60) = Fin 0"
    using js_rem_int [of "3600 * 2 ^ 70" 60] by simp
  have mi: "Math_floor (js_div (Fin 0) (Fin 60)) = Fin 0" by (simp add: rnd_zero)
  have z: "padStart (Number_toString (Fin 0)) 2 (CHR ''0'') = ''00''"
    by (simp add: padStart_def int_toString_def mag_toString_def nat_toString.simps digit_char_def)
  have fl: "\<lfloor>2 ^ 70 :: real\<rfloor> = 2 ^ 70"
  proof -
    have "(2 ^ 70 :: real) = real_of_int (2 ^ 70)" by simp
    then show ?thesis by (simp only: floor_of_int)
  qed
  have hrs: "Number_toString (Fin (2 ^ 70)) = mag_toString (2 ^ 70)"
    by (simp add: int_toString_def fl)
  have tr: "truthy (Val (Fin (3600000 * 2 ^ 70)))" by simp
  have g: "js_gt (Fin (2 ^ 70)) (Fin 0)" by simp
  have fmt: "formatDuration (Val (Fin (3600000 * 2 ^ 70)))
      = mag_toString (2 ^ 70) @ '':'' @ ''00'' @ '':'' @ ''00''"
    by (simp only: formatDuration_def tr not_True_eq_False if_False ToNumber.simps Let_def
        ts hs r1 r2 mi z hrs g if_True)
  have "(2::nat) ^ 53 < 2 ^ 70" by simp
  from mag_toString_exponent [OF this] length_nat_toString_2_70
  obtain mant ex where m: "mag_toString (2 ^ 70) = mant @ CHR ''e'' # ex"
    "CHR '':'' \<notin> set mant" "CHR '':'' \<notin> set ex" by auto
  have "parseDuration ((mant @ CHR ''e'' # ex) @ '':'' @ ''00'' @ '':'' @ ''00'') = None"
    by (rule parseDuration_exponent [OF m(2,3)]) simp_all
  then have "parseDuration (formatDuration (Val (Fin (3600000 * 2 ^ 70)))) = None"
    by (simp only: fmt m(1))
  with ts hs show ?thesis by blast
qed

section \<open>Properties of the frequency estimate\<close>

lemma avgDaysBetween_short: "length dates \<le> 1 \<Longrightarrow> avgDaysBetween cap dates = Null"
  by (simp add: avgDaysBetween_def)

lemma length_intervals: "length (intervals cap dates) = min (length dates - 1) cap"
  by (simp add: intervals_def)

lemma avgDaysBetween_long:
  "1 < length dates \<Longrightarrow>
     avgDaysBetween cap dates =
       Val (js_div (foldl js_add (Fin 0) (intervals cap dates)) (Fin (real (min (length dates - 1) cap))))"
  by (simp add: avgDaysBetween_def length_intervals)

text \<open>The loop reads the first \<open>cap + 1\<close> dates and no other.\<close>

lemma intervals_take: "intervals cap (take (Suc cap) dates) = intervals cap dates"
proof -
  have m: "min (length (take (Suc cap) dates) - 1) cap = min (length dates - 1) cap" by auto
  show ?thesis unfolding intervals_def m by (rule map_cong) simp_all
qed

lemma avgDaysBetween_take:
  assumes "1 < length dates" "0 < cap"
  shows "avgDaysBetween cap dates = avgDaysBetween cap (take (Suc cap) dates)"
proof -
  have "1 < length (take (Suc cap) dates)" using assms by simp
  then show ?thesis using assms(1) by (simp add: avgDaysBetween_def intervals_take)
qed

lemma foldl_js_add_replicate:
  "a + k * c \<le> 2 ^ 53 \<Longrightarrow>
     foldl js_add (Fin (real a)) (replicate k (Fin (real c))) = Fin (real (a + k * c))"
proof (induction k arbitrary: a)
  case 0
  then show ?case by simp
next
  case (Suc k)
  then have b: "a + c \<le> 2 ^ 53" "(a + c) + k * c \<le> 2 ^ 53" by simp_all
  have "js_add (Fin (real a)) (Fin (real c)) = rnd (real (a + c))" by simp
  also have "\<dots> = Fin (real (a + c))" by (rule rnd_of_nat [OF b(1)])
  finally have "js_add (Fin (real a)) (Fin (real c)) = Fin (real (a + c))" .
  then have "foldl js_add (Fin (real a)) (replicate (Suc k) (Fin (real c)))
      = foldl js_add (Fin (real (a + c))) (replicate k (Fin (real c)))" by simp
  also have "\<dots> = Fin (real ((a + c) + k * c))" by (rule Suc.IH [OF b(2)])
  finally show ?case by (simp add: add.assoc)
qed

text \<open>A gap of a whole number of days is that number: the two roundings are exact.\<close>

lemma gap_days:
  assumes "a - b = int g * 86400000" "g * 86400000 \<le> 2 ^ 53"
  shows "js_div (js_sub (Fin (of_int a)) (Fin (of_int b))) (Fin (1000 * 60 * 60 * 24)) = Fin (real g)"
proof -
  have "real_of_int a - real_of_int b = real_of_int (a - b)" by simp
  also have "\<dots> = real (g * 86400000)" by (simp add: assms(1))
  finally have d: "real_of_int a - real_of_int b = real (g * 86400000)" .
  have "js_sub (Fin (of_int a)) (Fin (of_int b)) = rnd (real (g * 86400000))"
    by (simp only: js_sub.simps d)
  also have "\<dots> = Fin (real (g * 86400000))" by (rule rnd_of_nat [OF assms(2)])
  finally have s: "js_sub (Fin (of_int a)) (Fin (of_int b)) = Fin (real (g * 86400000))" .
  have "g \<le> g * 86400000" by simp
  with assms(2) have "g \<le> 2 ^ 53" by linarith
  from rnd_of_nat [OF this] have "js_div (Fin (real (g * 86400000))) (Fin (1000 * 60 * 60 * 24)) = Fin (real g)"
    by simp
  then show ?thesis by (simp only: s)
qed

lemma intervals_constant:
  assumes "\<forall>i<min (length dates - 1) cap. dates ! i - dates ! Suc i = int g * 86400000"
    and "g * 86400000 \<le> 2 ^ 53"
  shows "intervals cap dates = replicate (min (length dates - 1) cap) (Fin (real g))"
proof (rule replicate_eqI)
  show "length (intervals cap dates) = min (length dates - 1) cap" by (rule length_intervals)
next
  fix y assume "y \<in> set (intervals cap dates)"
  then obtain i where i: "i < min (length dates - 1) cap"
    and y: "y = js_div (js_sub (Fin (of_int (dates ! i))) (Fin (of_int (dates ! (i + 1)))))
                  (Fin (1000 * 60 * 60 * 24))"
    by (auto simp add: intervals_def)
  from assms(1) i have "dates ! i - dates ! (i + 1) = int g * 86400000" by simp
  from gap_days [OF this assms(2)] show "y = Fin (real g)" by (simp only: y)
qed

lemma avgDaysBetween_constant:
  assumes "1 < length dates" "0 < cap"
    and "\<forall>i<min (length dates - 1) cap. dates ! i - dates ! Suc i = int g * 86400000"
    and "g * 86400000 \<le> 2 ^ 53" "cap * g \<le> 2 ^ 53"
  shows "avgDaysBetween cap dates = Val (Fin (real g))"
proof -
  define k where "k = min (length dates - 1) cap"
  have k: "0 < k" "k \<le> cap" using assms(1,2) by (simp_all add: k_def)
  have "k * g \<le> cap * g" using k(2) by (rule mult_le_mono1)
  with assms(5) have kg: "0 + k * g \<le> 2 ^ 53" by linarith
  have g: "g \<le> 2 ^ 53" using assms(4) by simp
  have "foldl js_add (Fin 0) (intervals cap dates) = foldl js_add (Fin (real 0)) (replicate k (Fin (real g)))"
    by (simp add: intervals_constant [OF assms(3,4)] k_def)
  also have "\<dots> = Fin (real (0 + k * g))" by (rule foldl_js_add_replicate [OF kg])
  finally have s: "foldl js_add (Fin 0) (intervals cap dates) = Fin (real k * real g)" by simp
  have "real k * real g / real k = real g" using k(1) by simp
  then have "js_div (Fin (real k * real g)) (Fin (real k)) = Fin (real g)"
    using k(1) rnd_of_nat [OF g] by simp
  then show ?thesis by (simp only: avgDaysBetween_long [OF assms(1)] s k_def [symmetric])
qed

lemma sorted_dates_map:
  "sort_desc (valid_times (map (\<lambda>ep. newDate parse (f ep)) eps)) = sorted_dates parse (map f eps)"
  by (simp add: sorted_dates_def comp_def)

lemma index_in_range: "i < length xs \<Longrightarrow> method_call (index xs i) m = Inr (m (xs ! i))"
  by (simp add: index_def)

lemma generateEpisodeAnalytics_Val:
  assumes "eps \<noteq> []"
  shows "generateEpisodeAnalytics parse eps =
     (let dates = sorted_dates parse (map release_date eps);
          avg = avgDuration (positive_durations (map duration_ms eps));
          avgDays = avgDaysBetween 20 dates
      in Inr (Val \<lparr> total_episodes = length eps,
                     average_duration_seconds = Math_round avg,
                     average_duration_formatted = formatDuration (Val (js_mul avg (Fin 1000))),
                     first_episode_date = (if dates = [] then Null else Val (ISOString (last dates))),
                     latest_episode_date = (if dates = [] then Null else Val (ISOString (hd dates))),
                     average_days_between_episodes =
                       (if truthy avgDays then Val (Math_round (ToNumber avgDays)) else Null),
                     publishing_frequency = estimateFrequency avgDays \<rparr>))"
proof (cases "sorted_dates parse (map release_date eps) = []")
  case True
  with assms show ?thesis
    by (simp add: generateEpisodeAnalytics_def sorted_dates_map Let_def)
next
  case False
  then have "method_call (index (sorted_dates parse (map release_date eps))
                 (length (sorted_dates parse (map release_date eps)) - 1)) ISOString
             = Inr (ISOString (last (sorted_dates parse (map release_date eps))))"
    "method_call (index (sorted_dates parse (map release_date eps)) 0) ISOString
             = Inr (ISOString (hd (sorted_dates parse (map release_date eps))))"
    by (simp_all add: index_in_range last_conv_nth hd_conv_nth)
  with assms False show ?thesis
    by (simp add: generateEpisodeAnalytics_def sorted_dates_map Let_def)
qed

lemma analyzeEpisodes_Val:
  assumes "eps \<noteq> []"
  shows "analyzeEpisodes parse eps =
     (let dates = sorted_dates parse (map releaseDate eps);
          avg = avgDuration (positive_durations (map trackTimeMillis eps));
          avgDays = avgDaysBetween 10 dates
      in Val \<lparr> ea_average_duration_seconds = Math_round avg,
                average_duration_minutes = Math_round (js_div avg (Fin 60)),
                publishing_frequency_days =
                  (if truthy avgDays then Val (Math_round (ToNumber avgDays)) else Null),
                estimated_schedule = estimateSchedule avgDays,
                total_analyzed = length eps \<rparr>)"
  using assms by (simp add: analyzeEpisodes_def sorted_dates_map Let_def)



lemma estimate_falsy:
  "\<not> truthy a \<Longrightarrow> estimateSchedule a = ''unknown'' \<and> estimateFrequency a = ''unknown''"
  by (simp add: estimateSchedule_def estimateFrequency_def)

text \<open>
  C9. The two classifiers give the same label on every input except a number in
  \<open>(1.5, 4]\<close>, where the detail classifier says \<open>2-3 times per week\<close> and the
  episode-list classifier \<open>multiple times per week\<close>; falsy inputs give \<open>unknown\<close> in
  both.
\<close>

theorem classifiers_differ_in_second_bucket_only:
  "(estimateSchedule a = estimateFrequency a) = (\<not> (\<exists>x. a = Val (Fin x) \<and> 1.5 < x \<and> x \<le> 4)) \<and>
   (\<forall>x. 1.5 < x \<and> x \<le> 4 \<longrightarrow>
      estimateSchedule (Val (Fin x)) = ''2-3 times per week'' \<and>
      estimateFrequency (Val (Fin x)) = ''multiple times per week'') \<and>
   (\<not> truthy a \<longrightarrow> estimateSchedule a = ''unknown'' \<and> estimateFrequency a = ''unknown'')"
proof (intro conjI)
  show "(estimateSchedule a = estimateFrequency a) = (\<not> (\<exists>x. a = Val (Fin x) \<and> 1.5 < x \<and> x \<le> 4))"
  proof (cases a)
    case (Val n)
    then show ?thesis
      by (cases n) (auto simp add: estimateSchedule_def estimateFrequency_def)
  qed (simp_all add: estimateSchedule_def estimateFrequency_def)
  show "\<forall>x. 1.5 < x \<and> x \<le> 4 \<longrightarrow>
      estimateSchedule (Val (Fin x)) = ''2-3 times per week'' \<and>
      estimateFrequency (Val (Fin x)) = ''multiple times per week''"
    by (auto simp add: estimateSchedule_def estimateFrequency_def)
  show "\<not> truthy a \<longrightarrow> estimateSchedule a = ''unknown'' \<and> estimateFrequency a = ''unknown''"
    using estimate_falsy by blast
qed

theorem classifiers_differ_in_second_bucket_only_witness:
  "estimateSchedule (Val (Fin 3)) \<noteq> estimateFrequency (Val (Fin 3)) \<and>
   estimateSchedule (Val (Fin 3)) = ''2-3 times per week'' \<and>
   estimateFrequency (Val (Fin 3)) = ''multiple times per week'' \<and>
   estimateSchedule (Val (Fin 7)) = estimateFrequency (Val (Fin 7)) \<and>
   estimateSchedule Null = ''unknown'' \<and> estimateFrequency Null = ''unknown''"
proof -
  have "\<exists>x::real. Val (Fin 3) = Val (Fin x) \<and> 1.5 < x \<and> x \<le> 4" by simp
  then have a: "estimateSchedule (Val (Fin 3)) \<noteq> estimateFrequency (Val (Fin 3))"
    using classifiers_differ_in_second_bucket_only [of "Val (Fin 3)"] by blast
  have "(1.5::real) < 3 \<and> (3::real) \<le> 4" by simp
  then have l: "estimateSchedule (Val (Fin 3)) = ''2-3 times per week'' \<and>
      estimateFrequency (Val (Fin 3)) = ''multiple times per week''"
    using classifiers_differ_in_second_bucket_only [of Null] by blast
  have "\<not> (\<exists>x::real. Val (Fin 7) = Val (Fin x) \<and> 1.5 < x \<and> x \<le> 4)" by simp
  then have b: "estimateSchedule (Val (Fin 7)) = estimateFrequency (Val (Fin 7))"
    using classifiers_differ_in_second_bucket_only [of "Val (Fin 7)"] by blast
  have "\<not> truthy Null" by simp
  then have c: "estimateSchedule Null = ''unknown'' \<and> estimateFrequency Null = ''unknown''"
    using classifiers_differ_in_second_bucket_only [of Null] by blast
  from a l b c show ?thesis by blast
qed

section \<open>Degenerate inputs of the analyzers\<close>

lemma sorted_dates_single:
  "sorted_dates parse [f] = (case newDate parse f of InvalidDate \<Rightarrow> [] | Date t \<Rightarrow> [t])"
  by (cases "newDate parse f") (simp_all add: sorted_dates_def valid_times_def sort_desc_def)

lemma length_valid_times: "length (valid_times ds) \<le> length ds"
proof (induction ds)
  case Nil
  then show ?case by (simp add: valid_times_def)
next
  case (Cons d ds)
  then show ?case by (cases d) (simp_all add: valid_times_def)
qed

lemma length_sorted_dates: "length (sorted_dates parse fs) \<le> length fs"
  using length_valid_times [of "map (newDate parse) fs"]
  by (simp add: sorted_dates_def sort_desc_def)

lemma podcastDetails_of_insights:
  "podcastDetails_of parse log10 podcastInfo eps = Inr d \<Longrightarrow> episode_insights d = analyzeEpisodes parse eps"
  by (cases "collectionId podcastInfo") (auto simp add: podcastDetails_of_def Let_def)

lemma analyzeEpisodes_Null_iff: "(analyzeEpisodes parse eps = Null) = (eps = [])"
  by (simp add: analyzeEpisodes_def Let_def)

text \<open>
  C2. Both analyzers return \<open>null\<close> on the empty list, and the \<open>episode_insights\<close> of a
  compiled podcast is \<open>null\<close> exactly when its episode list is empty. On one episode the
  average gap is \<open>null\<close> and the frequency label is \<open>unknown\<close>, and the other fields of
  the record are produced.
\<close>

theorem degenerate_inputs:
  "analyzeEpisodes parse [] = Null \<and>
   generateEpisodeAnalytics parse [] = Inr Null \<and>
   (analyzeEpisodes parse raws = Null) = (raws = []) \<and>
   (\<forall>d. podcastDetails_of parse log10 podcastInfo raws = Inr d \<longrightarrow> (episode_insights d = Null) = (raws = [])) \<and>
   generateEpisodeAnalytics parse [e] =
     Inr (Val \<lparr> total_episodes = 1,
                average_duration_seconds = Math_round (avgDuration (positive_durations [duration_ms e])),
                average_duration_formatted =
                  formatDuration (Val (js_mul (avgDuration (positive_durations [duration_ms e])) (Fin 1000))),
                first_episode_date =
                  (case newDate parse (release_date e) of InvalidDate \<Rightarrow> Null | Date t \<Rightarrow> Val (ISOString t)),
                latest_episode_date =
                  (case newDate parse (release_date e) of InvalidDate \<Rightarrow> Null | Date t \<Rightarrow> Val (ISOString t)),
                average_days_between_episodes = Null,
                publishing_frequency = ''unknown'' \<rparr>) \<and>
   analyzeEpisodes parse [raw] =
     Val \<lparr> ea_average_duration_seconds = Math_round (avgDuration (positive_durations [trackTimeMillis raw])),
           average_duration_minutes =
             Math_round (js_div (avgDuration (positive_durations [trackTimeMillis raw])) (Fin 60)),
           publishing_frequency_days = Null,
           estimated_schedule = ''unknown'',
           total_analyzed = 1 \<rparr>"
proof (intro conjI)
  show "analyzeEpisodes parse [] = Null" by (simp add: analyzeEpisodes_def)
  show "generateEpisodeAnalytics parse [] = Inr Null" by (simp add: generateEpisodeAnalytics_def)
  show "(analyzeEpisodes parse raws = Null) = (raws = [])" by (rule analyzeEpisodes_Null_iff)
  show "\<forall>d. podcastDetails_of parse log10 podcastInfo raws = Inr d \<longrightarrow> (episode_insights d = Null) = (raws = [])"
    using podcastDetails_of_insights analyzeEpisodes_Null_iff by metis
next
  have short: "avgDaysBetween 20 (sorted_dates parse [release_date e]) = Null"
    using length_sorted_dates [of parse "[release_date e]"] by (simp add: avgDaysBetween_short)
  have "[e] \<noteq> []" by simp
  from generateEpisodeAnalytics_Val [OF this, of parse] short
  show "generateEpisodeAnalytics parse [e] =
     Inr (Val \<lparr> total_episodes = 1,
                average_duration_seconds = Math_round (avgDuration (positive_durations [duration_ms e])),
                average_duration_formatted =
                  formatDuration (Val (js_mul (avgDuration (positive_durations [duration_ms e])) (Fin 1000))),
                first_episode_date =
                  (case newDate parse (release_date e) of InvalidDate \<Rightarrow> Null | Date t \<Rightarrow> Val (ISOString t)),
                latest_episode_date =
                  (case newDate parse (release_date e) of InvalidDate \<Rightarrow> Null | Date t \<Rightarrow> Val (ISOString t)),
                average_days_between_episodes = Null,
                publishing_frequency = ''unknown'' \<rparr>)"
    by (cases "newDate parse (release_date e)")
      (simp_all add: Let_def sorted_dates_single estimateFrequency_def)
next
  have short: "avgDaysBetween 10 (sorted_dates parse [releaseDate raw]) = Null"
    using length_sorted_dates [of parse "[releaseDate raw]"] by (simp add: avgDaysBetween_short)
  have "[raw] \<noteq> []" by simp
  from analyzeEpisodes_Val [OF this, of parse] short
  show "analyzeEpisodes parse [raw] =
     Val \<lparr> ea_average_duration_seconds = Math_round (avgDuration (positive_durations [trackTimeMillis raw])),
           average_duration_minutes =
             Math_round (js_div (avgDuration (positive_durations [trackTimeMillis raw])) (Fin 60)),
           publishing_frequency_days = Null,
           estimated_schedule = ''unknown'',
           total_analyzed = 1 \<rparr>"
    by (simp add: Let_def estimateSchedule_def)
qed

theorem degenerate_inputs_witness:
  "map_sum id episode_insights
     (podcastDetails_of Date_parse_sample log10_sample (emptyItem\<lparr>collectionId := Val 42\<rparr>) []) = Inr Null \<and>
   map_sum id episode_insights
     (podcastDetails_of Date_parse_sample log10_sample (emptyItem\<lparr>collectionId := Val 42\<rparr>)
        [emptyItem\<lparr>releaseDate := Val ''2024-01-01T00:00:00Z''\<rparr>]) \<noteq> Inr Null"
proof -
  let ?p = "emptyItem\<lparr>collectionId := Val 42\<rparr>"
  let ?e = "emptyItem\<lparr>releaseDate := Val ''2024-01-01T00:00:00Z''\<rparr>"
  obtain d where d: "podcastDetails_of Date_parse_sample log10_sample ?p [] = Inr d"
    by (simp add: podcastDetails_of_def Let_def emptyItem_def)
  obtain d' where d': "podcastDetails_of Date_parse_sample log10_sample ?p [?e] = Inr d'"
    by (simp add: podcastDetails_of_def Let_def emptyItem_def)
  have "episode_insights d = Null"
    using degenerate_inputs [of Date_parse_sample "[]" log10_sample ?p] d by blast
  moreover have "episode_insights d' \<noteq> Null"
    using degenerate_inputs [of Date_parse_sample "[?e]" log10_sample ?p] d' by blast
  ultimately show ?thesis by (simp add: d d')
qed

section \<open>The capped lookback window\<close>

lemma valid_times_concat:
  "valid_times ds = concat (map (\<lambda>d. case d of InvalidDate \<Rightarrow> [] | Date t \<Rightarrow> [t]) ds)"
proof (induction ds)
  case Nil
  then show ?case by (simp add: valid_times_def)
next
  case (Cons d ds)
  then show ?case by (cases d) (simp_all add: valid_times_def)
qed

lemma sorted_dates_closed:
  "sorted_dates parse fs =
     rev (sort (concat (map (\<lambda>f. case newDate parse f of InvalidDate \<Rightarrow> [] | Date t \<Rightarrow> [t]) fs)))"
  by (simp add: sorted_dates_def sort_desc_def valid_times_concat comp_def)

lemma avgDaysBetween_explicit:
  "1 < length dates \<Longrightarrow>
     avgDaysBetween cap dates =
       Val (js_div
              (foldl js_add (Fin 0)
                 (map (\<lambda>i. js_div (js_sub (Fin (of_int (dates ! i))) (Fin (of_int (dates ! Suc i))))
                              (Fin 86400000))
                    [0 ..< min (length dates - 1) cap]))
              (Fin (real (min (length dates - 1) cap))))"
  by (simp add: avgDaysBetween_long intervals_def)

lemma avgDaysBetween_daily:
  assumes "21 \<le> length dates" "\<forall>i<20. dates ! i - dates ! Suc i = 86400000"
  shows "avgDaysBetween 20 dates = Val (Fin 1)"
proof -
  have l: "1 < length dates" and c: "(0::nat) < 20" using assms(1) by simp_all
  have m: "min (length dates - 1) 20 = 20" using assms(1) by arith
  have g: "\<forall>i<min (length dates - 1) 20. dates ! i - dates ! Suc i = int 1 * 86400000"
    using assms(2) by (simp add: m)
  have "avgDaysBetween 20 dates = Val (Fin (real 1))"
    by (rule avgDaysBetween_constant [OF l c g]) simp_all
  then show ?thesis by simp
qed

text \<open>
  C4. The average gap is the (double) mean of the first \<open>min(n - 1, K)\<close> consecutive-pair
  gaps of the dates, and does not change when the list is cut after \<open>K + 1\<close> entries.
  The dates are the time values of the release dates that parse, sorted descending;
  \<open>K\<close> is 10 in the detail analyzer and 20 in the episode-list analyzer. When the first
  20 gaps are one day each, the cap-20 average is 1 whatever follows.
\<close>

theorem interval_cap:
  "(1 < length dates \<longrightarrow>
      avgDaysBetween cap dates =
        Val (js_div
               (foldl js_add (Fin 0)
                  (map (\<lambda>i. js_div (js_sub (Fin (of_int (dates ! i))) (Fin (of_int (dates ! Suc i))))
                               (Fin 86400000))
                     [0 ..< min (length dates - 1) cap]))
               (Fin (real (min (length dates - 1) cap))))) \<and>
   (1 < length dates \<and> 0 < cap \<longrightarrow>
      avgDaysBetween cap dates = avgDaysBetween cap (take (Suc cap) dates)) \<and>
   sorted_dates parse fs =
     rev (sort (concat (map (\<lambda>f. case newDate parse f of InvalidDate \<Rightarrow> [] | Date t \<Rightarrow> [t]) fs))) \<and>
   (raws \<noteq> [] \<longrightarrow>
      (\<exists>r. analyzeEpisodes parse raws = Val r \<and>
           estimated_schedule r = estimateSchedule (avgDaysBetween 10 (sorted_dates parse (map releaseDate raws))) \<and>
           publishing_frequency_days r =
             (if truthy (avgDaysBetween 10 (sorted_dates parse (map releaseDate raws)))
              then Val (Math_round (ToNumber (avgDaysBetween 10 (sorted_dates parse (map releaseDate raws)))))
              else Null))) \<and>
   (eps \<noteq> [] \<longrightarrow>
      (\<exists>r. generateEpisodeAnalytics parse eps = Inr (Val r) \<and>
           publishing_frequency r = estimateFrequency (avgDaysBetween 20 (sorted_dates parse (map release_date eps))) \<and>
           average_days_between_episodes r =
             (if truthy (avgDaysBetween 20 (sorted_dates parse (map release_date eps)))
              then Val (Math_round (ToNumber (avgDaysBetween 20 (sorted_dates parse (map release_date eps)))))
              else Null))) \<and>
   (21 \<le> length dates \<and> (\<forall>i<20. dates ! i - dates ! Suc i = 86400000) \<longrightarrow>
      avgDaysBetween 20 dates = Val (Fin 1))"
proof (intro conjI impI)
  assume "1 < length dates"
  then show "avgDaysBetween cap dates =
        Val (js_div
               (foldl js_add (Fin 0)
                  (map (\<lambda>i. js_div (js_sub (Fin (of_int (dates ! i))) (Fin (of_int (dates ! Suc i))))
                               (Fin 86400000))
                     [0 ..< min (length dates - 1) cap]))
               (Fin (real (min (length dates - 1) cap))))"
    by (rule avgDaysBetween_explicit)
next
  assume "1 < length dates \<and> 0 < cap"
  then show "avgDaysBetween cap dates = avgDaysBetween cap (take (Suc cap) dates)"
    using avgDaysBetween_take by blast
next
  show "sorted_dates parse fs =
     rev (sort (concat (map (\<lambda>f. case newDate parse f of InvalidDate \<Rightarrow> [] | Date t \<Rightarrow> [t]) fs)))"
    by (rule sorted_dates_closed)
next
  assume "raws \<noteq> []"
  from analyzeEpisodes_Val [OF this, of parse]
  show "\<exists>r. analyzeEpisodes parse raws = Val r \<and>
           estimated_schedule r = estimateSchedule (avgDaysBetween 10 (sorted_dates parse (map releaseDate raws))) \<and>
           publishing_frequency_days r =
             (if truthy (avgDaysBetween 10 (sorted_dates parse (map releaseDate raws)))
              then Val (Math_round (ToNumber (avgDaysBetween 10 (sorted_dates parse (map releaseDate raws)))))
              else Null)"
    by (simp add: Let_def)
next
  assume "eps \<noteq> []"
  from generateEpisodeAnalytics_Val [OF this, of parse]
  show "\<exists>r. generateEpisodeAnalytics parse eps = Inr (Val r) \<and>
           publishing_frequency r = estimateFrequency (avgDaysBetween 20 (sorted_dates parse (map release_date eps))) \<and>
           average_days_between_episodes r =
             (if truthy (avgDaysBetween 20 (sorted_dates parse (map release_date eps)))
              then Val (Math_round (ToNumber (avgDaysBetween 20 (sorted_dates parse (map release_date eps)))))
              else Null)"
    by (simp add: Let_def)
next
  assume "21 \<le> length dates \<and> (\<forall>i<20. dates ! i - dates ! Suc i = 86400000)"
  then show "avgDaysBetween 20 dates = Val (Fin 1)"
    using avgDaysBetween_daily by blast
qed

text \<open>
  The calendar of 25 release dates, oldest first: sorted descending, the first 20 gaps
  are one day each and the 21st is 1000 days.
\<close>

lemma calendar_dates:
  "rev (sort (concat (map (\<lambda>f. case newDate Date_parse_calendar f of InvalidDate \<Rightarrow> [] | Date t \<Rightarrow> [t])
       (map (\<lambda>p. Val (fst p)) sample_calendar))))
   = rev (map snd sample_calendar)"
  by (simp add: sample_calendar_def Date_parse_calendar_def)

lemma calendar_gaps:
  "\<forall>i<20. rev (map snd sample_calendar) ! i - rev (map snd sample_calendar) ! Suc i = 86400000"
  by (simp add: sample_calendar_def All_less_Suc eval_nat_numeral)

theorem interval_cap_witness:
  "sorted_dates Date_parse_calendar (map (\<lambda>p. Val (fst p)) sample_calendar) = rev (map snd sample_calendar) \<and>
   length (rev (map snd sample_calendar)) = 25 \<and>
   rev (map snd sample_calendar) ! 20 - rev (map snd sample_calendar) ! 21 = 1000 * 86400000 \<and>
   avgDaysBetween 20 (rev (map snd sample_calendar)) = Val (Fin 1) \<and>
   avgDaysBetween 20 (rev (map snd sample_calendar))
     = avgDaysBetween 20 (take 21 (rev (map snd sample_calendar))) \<and>
   (\<exists>r. generateEpisodeAnalytics Date_parse_calendar
          (map (\<lambda>p. episode_of (emptyItem\<lparr>releaseDate := Val (fst p)\<rparr>)) sample_calendar) = Inr (Val r) \<and>
        average_days_between_episodes r = Val (Fin 1) \<and> publishing_frequency r = ''daily'') \<and>
   (\<exists>r. analyzeEpisodes Date_parse_calendar
          (map (\<lambda>p. emptyItem\<lparr>releaseDate := Val (fst p)\<rparr>) sample_calendar) = Val r \<and>
        publishing_frequency_days r = Val (Fin 1) \<and> estimated_schedule r = ''daily'')"
proof -
  let ?fs = "map (\<lambda>p. Val (fst p)) sample_calendar"
  let ?dates = "rev (map snd sample_calendar)"
  let ?eps = "map (\<lambda>p. episode_of (emptyItem\<lparr>releaseDate := Val (fst p)\<rparr>)) sample_calendar"
  let ?raws = "map (\<lambda>p. emptyItem\<lparr>releaseDate := Val (fst p)\<rparr>) sample_calendar"
  have "sorted_dates Date_parse_calendar ?fs =
     rev (sort (concat (map (\<lambda>f. case newDate Date_parse_calendar f of InvalidDate \<Rightarrow> [] | Date t \<Rightarrow> [t]) ?fs)))"
    using interval_cap [of _ _ Date_parse_calendar ?fs] by blast
  then have sd: "sorted_dates Date_parse_calendar ?fs = ?dates" by (simp only: calendar_dates)
  have len: "length ?dates = 25" by (simp add: sample_calendar_def)
  have big: "?dates ! 20 - ?dates ! 21 = 1000 * 86400000" by (simp add: sample_calendar_def)
  from len have "21 \<le> length ?dates" by simp
  with calendar_gaps have one: "avgDaysBetween 20 ?dates = Val (Fin 1)"
    using interval_cap [of ?dates] by blast
  from len have "1 < length ?dates \<and> (0::nat) < 20" by simp
  then have "avgDaysBetween 20 ?dates = avgDaysBetween 20 (take (Suc 20) ?dates)"
    using interval_cap [of ?dates 20] by blast
  then have cut: "avgDaysBetween 20 ?dates = avgDaysBetween 20 (take 21 ?dates)"
    by (simp only: eval_nat_numeral)
  have ten: "avgDaysBetween 10 ?dates = Val (Fin 1)"
  proof -
    have l: "1 < length ?dates" and c: "(0::nat) < 10" using len by simp_all
    have "\<forall>i<min (length ?dates - 1) 10. ?dates ! i - ?dates ! Suc i = int 1 * 86400000"
      using calendar_gaps by (simp add: len)
    then have "avgDaysBetween 10 ?dates = Val (Fin (real 1))"
      by (intro avgDaysBetween_constant [OF l c]) simp_all
    then show ?thesis by simp
  qed
  have fe: "map release_date ?eps = ?fs" by (simp add: episode_of_def comp_def)
  have fr: "map releaseDate ?raws = ?fs" by (simp add: comp_def)
  have r: "\<lfloor>(1::real) + 1 / 2\<rfloor> = 1" by linarith
  have "?eps \<noteq> []" by (simp add: sample_calendar_def)
  then have "\<exists>r. generateEpisodeAnalytics Date_parse_calendar ?eps = Inr (Val r) \<and>
           publishing_frequency r
             = estimateFrequency (avgDaysBetween 20 (sorted_dates Date_parse_calendar (map release_date ?eps))) \<and>
           average_days_between_episodes r =
             (if truthy (avgDaysBetween 20 (sorted_dates Date_parse_calendar (map release_date ?eps)))
              then Val (Math_round (ToNumber (avgDaysBetween 20 (sorted_dates Date_parse_calendar (map release_date ?eps)))))
              else Null)"
    using interval_cap [of _ _ Date_parse_calendar _ _ ?eps] by blast
  then have lst: "\<exists>r. generateEpisodeAnalytics Date_parse_calendar ?eps = Inr (Val r) \<and>
        average_days_between_episodes r = Val (Fin 1) \<and> publishing_frequency r = ''daily''"
    unfolding fe sd one by (auto simp add: r estimateFrequency_def)
  have "?raws \<noteq> []" by (simp add: sample_calendar_def)
  then have "\<exists>r. analyzeEpisodes Date_parse_calendar ?raws = Val r \<and>
           estimated_schedule r
             = estimateSchedule (avgDaysBetween 10 (sorted_dates Date_parse_calendar (map releaseDate ?raws))) \<and>
           publishing_frequency_days r =
             (if truthy (avgDaysBetween 10 (sorted_dates Date_parse_calendar (map releaseDate ?raws)))
              then Val (Math_round (ToNumber (avgDaysBetween 10 (sorted_dates Date_parse_calendar (map releaseDate ?raws)))))
              else Null)"
    using interval_cap [of _ _ Date_parse_calendar _ ?raws] by blast
  then have det: "\<exists>r. analyzeEpisodes Date_parse_calendar ?raws = Val r \<and>
        publishing_frequency_days r = Val (Fin 1) \<and> estimated_schedule r = ''daily''"
    unfolding fr sd ten by (auto simp add: r estimateSchedule_def)
  from sd len big one cut lst det show ?thesis by blast
qed

section \<open>The cadence of two or more dated episodes\<close>










section \<open>The detail-context estimate\<close>

text \<open>The exact logarithm: \<open>12500 * log10(101)\<close> lies between 25054 and 25055.\<close>

lemma power_101_lower:
  fixes a :: real
  assumes a: "a = 101 / 100"
  shows "10 ^ 54 \<le> a ^ 12500"
proof -
  have s1: "(1.05101::real) \<le> a ^ 5" unfolding a by (simp add: power_divide)
  have s2: "(1.282431::real) \<le> 1.05101 ^ 5" by (simp add: power_divide)
  have s3: "(3.468726::real) \<le> 1.282431 ^ 5" by (simp add: power_divide)
  have s4: "(502.169::real) \<le> 3.468726 ^ 5" by (simp add: power_divide)
  have s5: "(31933710000000::real) \<le> 502.169 ^ 5" by (simp add: power_divide)
  have s6: "(10::real) ^ 54 \<le> 31933710000000 ^ 4" by simp
  have t2: "(1.282431::real) \<le> a ^ 25"
    using order_trans [OF s2 power_mono [OF s1, of 5]] by (simp add: power_mult [symmetric])
  have t3: "(3.468726::real) \<le> a ^ 125"
    using order_trans [OF s3 power_mono [OF t2, of 5]] by (simp add: power_mult [symmetric])
  have t4: "(502.169::real) \<le> a ^ 625"
    using order_trans [OF s4 power_mono [OF t3, of 5]] by (simp add: power_mult [symmetric])
  have t5: "(31933710000000::real) \<le> a ^ 3125"
    using order_trans [OF s5 power_mono [OF t4, of 5]] by (simp add: power_mult [symmetric])
  have t6: "(31933710000000::real) ^ 4 \<le> a ^ 12500"
    using power_mono [OF t5, of 4] by (simp add: power_mult [symmetric])
  show ?thesis using order_trans [OF s6 t6] .
qed

lemma power_101_upper:
  fixes a :: real
  assumes a: "a = 101 / 100"
  shows "a ^ 12500 < 10 ^ 55"
proof -
  have a0: "0 \<le> a" unfolding a by simp
  have s1: "a ^ 5 \<le> (1.051011::real)" unfolding a by (simp add: power_divide)
  have s2: "1.051011 ^ 5 \<le> (1.282438::real)" by (simp add: power_divide)
  have s3: "1.282438 ^ 5 \<le> (3.468822::real)" by (simp add: power_divide)
  have s4: "3.468822 ^ 5 \<le> (502.2386::real)" by (simp add: power_divide)
  have s5: "502.2386 ^ 5 \<le> (31955860000000::real)" by (simp add: power_divide)
  have s6: "(31955860000000::real) ^ 4 < 10 ^ 55" by simp
  have t2: "a ^ 25 \<le> (1.282438::real)"
    using order_trans [OF power_mono [OF s1, of 5] s2] a0 by (simp add: power_mult [symmetric])
  have t3: "a ^ 125 \<le> (3.468822::real)"
    using order_trans [OF power_mono [OF t2, of 5] s3] a0 by (simp add: power_mult [symmetric])
  have t4: "a ^ 625 \<le> (502.2386::real)"
    using order_trans [OF power_mono [OF t3, of 5] s4] a0 by (simp add: power_mult [symmetric])
  have t5: "a ^ 3125 \<le> (31955860000000::real)"
    using order_trans [OF power_mono [OF t4, of 5] s5] a0 by (simp add: power_mult [symmetric])
  have t6: "a ^ 12500 \<le> (31955860000000::real) ^ 4"
    using power_mono [OF t5, of 4] a0 by (simp add: power_mult [symmetric])
  show ?thesis using order_le_less_trans [OF t6 s6] .
qed

lemma floor_log_scaled:
  fixes a :: real
  assumes a: "a = 101 / 100"
  shows "\<lfloor>12500 * log 10 (100 * a)\<rfloor> = 25054"
proof -
  have apos: "0 < a" unfolding a by simp
  then have p: "0 < a ^ 12500" by (rule zero_less_power)
  have e: "log 10 (a ^ 12500) = 12500 * log 10 a"
    using log_nat_power [of a 10 12500] apos by simp
  have "log 10 ((10::real) ^ 54) \<le> log 10 (a ^ 12500)"
    by (rule log_mono) (use power_101_lower [OF a] in simp_all)
  moreover have "log 10 ((10::real) ^ 54) = 54"
    using log_pow_cancel [of 10 54] by simp
  ultimately have lo: "54 \<le> 12500 * log 10 a" using e by simp
  have "log 10 (a ^ 12500) < log 10 ((10::real) ^ 55)"
    by (rule log_less) (use power_101_upper [OF a] p in simp_all)
  moreover have "log 10 ((10::real) ^ 55) = 55"
    using log_pow_cancel [of 10 55] by simp
  ultimately have hi: "12500 * log 10 a < 55" using e by simp
  have "log 10 ((10::real) ^ 2) = 2"
    using log_pow_cancel [of 10 2] by simp
  then have h: "log 10 (100::real) = 2" by simp
  have "log 10 (100 * a) = log 10 100 + log 10 a"
    using apos by (simp add: log_mult_pos)
  then have s: "12500 * log 10 (100 * a) = 25000 + 12500 * log 10 a"
    using h by simp
  show ?thesis unfolding s using lo hi by linarith
qed

lemma floor_log10_101: "\<lfloor>12500 * log 10 (101::real)\<rfloor> = 25054"
  using floor_log_scaled [of "101 / 100"] by simp

text \<open>The double that the literal \<open>0.7\<close> denotes, \<open>0.6999999999999999556\<close>.\<close>

lemma nearest_eval:
  assumes "2 powi k \<le> \<bar>x\<bar>" "\<bar>x\<bar> < 2 powi (k + 1)" "- 1022 \<le> k"
    and "round_even (x / 2 powi (k - 52)) = n"
  shows "nearest x = of_int n * 2 powi (k - 52)"
  using nearest_binade [OF assms(1-3)] by (simp only: assms(4))

lemma nearest_7_10: "nearest 0.7 = 3152519739159347 / 2 ^ 52"
proof -
  have "nearest 0.7 = of_int 6305039478318694 * 2 powi (- 1 - 52)"
    by (rule nearest_eval) (simp_all add: round_even_def)
  then show ?thesis by simp
qed

lemma Math_floor_rnd:
  assumes "\<bar>x\<bar> < 2 powi (53 - int j)" "int j \<le> 1074"
    and "x - of_int \<lfloor>x\<rfloor> < 1 - 1 / 2 ^ Suc j"
  shows "Math_floor (rnd x) = Fin (of_int \<lfloor>x\<rfloor>)"
proof -
  have "(2::real) powi (53 - int j) \<le> 2 powi 53" by (intro power_int_increasing) simp_all
  with assms(1) have "\<bar>x\<bar> < 2 powi 53" by linarith
  from rnd_small [OF this] nearest_floor [OF assms] show ?thesis by simp
qed

lemma downloads_25054: "Math_floor (js_mul (Fin 25054) (Fin (nearest 0.7))) = Fin 17537"
proof -
  have "Math_floor (rnd (25054 * (3152519739159347 / 2 ^ 52)))
      = Fin (of_int \<lfloor>25054 * (3152519739159347 / 2 ^ 52) :: real\<rfloor>)"
    by (rule Math_floor_rnd [of _ 38]) simp_all
  then show ?thesis by (simp add: nearest_7_10)
qed

text \<open>
  The product with \<open>0.7\<close> can fall below the integer that exact arithmetic gives:
  \<open>21450 * 0.7\<close> is \<open>15014.999999999998\<close>.
\<close>

lemma downloads_21450: "Math_floor (js_mul (Fin 21450) (Fin (nearest 0.7))) = Fin 15014"
proof -
  have "Math_floor (rnd (21450 * (3152519739159347 / 2 ^ 52)))
      = Fin (of_int \<lfloor>21450 * (3152519739159347 / 2 ^ 52) :: real\<rfloor>)"
    by (rule Math_floor_rnd [of _ 39]) simp_all
  then show ?thesis by (simp add: nearest_7_10)
qed

lemma downloads_5000: "Math_floor (js_mul (Fin 5000) (Fin (nearest 0.7))) = Fin 3500"
proof -
  have "nearest (5000 * (3152519739159347 / 2 ^ 52)) = of_int (3500 * 2 ^ 41) * 2 powi (11 - 52)"
    by (rule nearest_eval) (simp_all add: round_even_def)
  then have n: "nearest (5000 * (3152519739159347 / 2 ^ 52)) = 3500" by simp
  have "\<bar>5000 * (3152519739159347 / 2 ^ 52) :: real\<bar> < 2 powi 53" by simp
  from rnd_small [OF this] have "rnd (5000 * (3152519739159347 / 2 ^ 52)) = Fin 3500"
    by (simp only: n)
  then show ?thesis by (simp add: nearest_7_10)
qed

text \<open>The weekly listeners, from bounds on what the runtime's logarithm returns.\<close>

lemma weekly_floor:
  assumes "real_of_int w \<le> c * L" "c * L \<le> real_of_int w + 1 / 2" "0 \<le> w" "w < 2 ^ 50"
  shows "Math_floor (js_mul (Fin c) (Fin L)) = Fin (of_int w)"
proof -
  define x where "x = c * L"
  have w: "real_of_int w < 2 ^ 50"
  proof -
    have "real_of_int w < real_of_int (2 ^ 50)" using assms(4) by (simp only: of_int_less_iff)
    then show ?thesis by simp
  qed
  have w0: "0 \<le> real_of_int w" using assms(3) by simp
  have s: "\<bar>x\<bar> < 2 powi (53 - int 1)" using assms(1,2) w w0 by (simp add: x_def)
  have "real_of_int (2 * w) / 2 ^ 1 \<le> x" "x \<le> real_of_int (2 * w + 1) / 2 ^ 1"
    using assms(1,2) by (simp_all add: x_def)
  from nearest_sandwich [OF this s] have "real_of_int w \<le> nearest x" "nearest x \<le> real_of_int w + 1 / 2"
    by simp_all
  then have f: "\<lfloor>nearest x\<rfloor> = w" by (simp add: floor_eq_iff)
  have "(2::real) powi (53 - int 1) \<le> 2 powi 53" by (intro power_int_increasing) simp_all
  with s have "\<bar>x\<bar> < 2 powi 53" by linarith
  from rnd_small [OF this] show ?thesis by (simp add: x_def [symmetric] f)
qed

lemma genreMultipliers_nonzero_all: "list_all (\<lambda>p. snd p \<noteq> 0) genreMultipliers"
proof -
  have b: "(3/2::real) \<le> 1.8" "(3/2::real) \<le> 1.6" "(3/2::real) \<le> 1.7" "(1::real) \<le> 1.4" by simp_all
  have s: "\<bar>1.8::real\<bar> < 2 powi (53 - int 1)" "\<bar>1.6::real\<bar> < 2 powi (53 - int 1)"
    "\<bar>1.7::real\<bar> < 2 powi (53 - int 1)" "\<bar>1.4::real\<bar> < 2 powi (53 - int 1)" by simp_all
  have "real_of_int 2 / 2 ^ 1 \<le> 1.8" "(1.8::real) \<le> real_of_int 4 / 2 ^ 1" by simp_all
  from nearest_sandwich [OF this s(1)] have 1: "nearest 1.8 \<noteq> 0" by simp
  have "real_of_int 2 / 2 ^ 1 \<le> 1.6" "(1.6::real) \<le> real_of_int 4 / 2 ^ 1" by simp_all
  from nearest_sandwich [OF this s(2)] have 2: "nearest 1.6 \<noteq> 0" by simp
  have "real_of_int 2 / 2 ^ 1 \<le> 1.7" "(1.7::real) \<le> real_of_int 4 / 2 ^ 1" by simp_all
  from nearest_sandwich [OF this s(3)] have 3: "nearest 1.7 \<noteq> 0" by simp
  have "real_of_int 2 / 2 ^ 1 \<le> 1.4" "(1.4::real) \<le> real_of_int 4 / 2 ^ 1" by simp_all
  from nearest_sandwich [OF this s(4)] have 4: "nearest 1.4 \<noteq> 0" by simp
  from 1 2 3 4 show ?thesis by (simp add: genreMultipliers_def)
qed

lemma genreMultipliers_nonzero: "map_of genreMultipliers k = Some m \<Longrightarrow> m \<noteq> 0"
proof -
  assume "map_of genreMultipliers k = Some m"
  then have "(k, m) \<in> set genreMultipliers" by (rule map_of_SomeD)
  with genreMultipliers_nonzero_all show ?thesis by (auto simp add: list_all_iff)
qed

lemma genreMultipliers_default: "get_property genreMultipliers ''default'' = PNumber 1"
  by (simp add: get_property_def genreMultipliers_def)

lemma estimateMetrics_multiplier:
  assumes "prop_or (get_property genreMultipliers (property_key (primaryGenreName podcast)))
             (get_property genreMultipliers ''default'') = PNumber m"
  shows "estimated_weekly_listeners (estimateMetrics log10 podcast n)
           = Math_floor (js_mul (js_mul (Fin 5000) (Fin m))
                          (Math_log10 log10 (js_add (Fin (real n)) (Fin 1))))"
  using assms by (simp add: estimateMetrics_def Let_def del: js_mul.simps js_add.simps)

lemma estimateMetrics_own:
  assumes "map_of genreMultipliers (property_key (primaryGenreName podcast)) = Some m"
  shows "prop_or (get_property genreMultipliers (property_key (primaryGenreName podcast)))
             (get_property genreMultipliers ''default'') = PNumber m"
  using assms genreMultipliers_nonzero [OF assms] by (simp add: get_property_def)

lemma estimateMetrics_unmapped:
  assumes "property_key (primaryGenreName podcast) \<notin> fst ` set genreMultipliers"
    and "property_key (primaryGenreName podcast) \<notin> set Object_prototype_keys"
  shows "prop_or (get_property genreMultipliers (property_key (primaryGenreName podcast)))
             (get_property genreMultipliers ''default'') = PNumber 1"
proof -
  have "map_of genreMultipliers (property_key (primaryGenreName podcast)) = None"
    using assms(1) by (simp add: map_of_eq_None_iff)
  then have "get_property genreMultipliers (property_key (primaryGenreName podcast)) = PUndefined"
    using assms(2) by (simp add: get_property_def)
  then show ?thesis by (simp add: genreMultipliers_default)
qed

lemma estimateMetrics_downloads:
  "estimated_downloads_per_episode (estimateMetrics log10 podcast n)
     = Math_floor (js_mul (estimated_weekly_listeners (estimateMetrics log10 podcast n)) (Fin (nearest 0.7)))"
  by (simp add: estimateMetrics_def Let_def del: js_mul.simps js_add.simps)

text \<open>
  A genre that names a property every object inherits reads a function from the table:
  the estimate is \<open>NaN\<close>.
\<close>

lemma genre_prototype_keys_not_own_all:
  "list_all (\<lambda>k. map_of genreMultipliers k = None) Object_prototype_keys"
  unfolding Object_prototype_keys_def genreMultipliers_def by simp

lemma estimateMetrics_inherited:
  assumes "property_key (primaryGenreName podcast) \<in> set Object_prototype_keys"
  shows "estimated_weekly_listeners (estimateMetrics log10 podcast n) = NaN \<and>
         estimated_downloads_per_episode (estimateMetrics log10 podcast n) = NaN"
proof -
  have "map_of genreMultipliers (property_key (primaryGenreName podcast)) = None"
    using assms genre_prototype_keys_not_own_all by (simp add: list_all_iff)
  then have "get_property genreMultipliers (property_key (primaryGenreName podcast)) = PObject"
    using assms by (simp add: get_property_def)
  then show ?thesis by (simp add: estimateMetrics_def Let_def)
qed

lemma log_argument: "n \<le> 2 ^ 52 \<Longrightarrow> js_add (Fin (real n)) (Fin 1) = Fin (real n + 1)"
proof -
  assume "n \<le> 2 ^ 52"
  then have "n + 1 \<le> 2 ^ 53" by simp
  from rnd_of_nat [OF this] show ?thesis by (simp add: add.commute)
qed

lemma true_crime_100:
  assumes "primaryGenreName podcast = Val ''True Crime''"
    and "2.00432 \<le> log10 101" "log10 101 \<le> 2.00436"
  shows "estimated_weekly_listeners (estimateMetrics log10 podcast 100) = Fin 25054 \<and>
         estimated_downloads_per_episode (estimateMetrics log10 podcast 100) = Fin 17537"
proof -
  have "map_of genreMultipliers (property_key (primaryGenreName podcast)) = Some 2.5"
    using assms(1) by (simp add: genreMultipliers_def)
  from estimateMetrics_multiplier [OF estimateMetrics_own [OF this], of log10 100]
  have "estimated_weekly_listeners (estimateMetrics log10 podcast 100)
           = Math_floor (js_mul (js_mul (Fin 5000) (Fin 2.5))
                          (Math_log10 log10 (js_add (Fin (real 100)) (Fin 1))))" .
  moreover have "js_add (Fin (real 100)) (Fin 1) = Fin 101"
    using log_argument [of 100] by simp
  moreover have "js_mul (Fin 5000) (Fin 2.5) = Fin 12500"
    using rnd_of_int [of 12500] by simp
  ultimately have "estimated_weekly_listeners (estimateMetrics log10 podcast 100)
           = Math_floor (js_mul (Fin 12500) (Fin (log10 101)))"
    by (simp del: js_mul.simps)
  moreover have "Math_floor (js_mul (Fin 12500) (Fin (log10 101))) = Fin (of_int 25054)"
    by (rule weekly_floor) (use assms(2,3) in simp_all)
  ultimately have w: "estimated_weekly_listeners (estimateMetrics log10 podcast 100) = Fin 25054"
    by simp
  have "estimated_downloads_per_episode (estimateMetrics log10 podcast 100) = Fin 17537"
    by (simp only: estimateMetrics_downloads w downloads_25054)
  with w show ?thesis by blast
qed

text \<open>
  At \<open>True Crime\<close> and 51 episodes the weekly listeners are 21450 and the downloads
  15014, one below \<open>floor(21450 * 7 / 10)\<close>.
\<close>

lemma true_crime_51:
  assumes "primaryGenreName podcast = Val ''True Crime''"
    and "1.716 \<le> log10 52" "log10 52 \<le> 1.71604"
  shows "estimated_weekly_listeners (estimateMetrics log10 podcast 51) = Fin 21450 \<and>
         estimated_downloads_per_episode (estimateMetrics log10 podcast 51) = Fin 15014"
proof -
  have "map_of genreMultipliers (property_key (primaryGenreName podcast)) = Some 2.5"
    using assms(1) by (simp add: genreMultipliers_def)
  from estimateMetrics_multiplier [OF estimateMetrics_own [OF this], of log10 51]
  have "estimated_weekly_listeners (estimateMetrics log10 podcast 51)
           = Math_floor (js_mul (js_mul (Fin 5000) (Fin 2.5))
                          (Math_log10 log10 (js_add (Fin (real 51)) (Fin 1))))" .
  moreover have "js_add (Fin (real 51)) (Fin 1) = Fin 52"
    using log_argument [of 51] by simp
  moreover have "js_mul (Fin 5000) (Fin 2.5) = Fin 12500"
    using rnd_of_int [of 12500] by simp
  ultimately have "estimated_weekly_listeners (estimateMetrics log10 podcast 51)
           = Math_floor (js_mul (Fin 12500) (Fin (log10 52)))"
    by (simp del: js_mul.simps)
  moreover have "Math_floor (js_mul (Fin 12500) (Fin (log10 52))) = Fin (of_int 21450)"
    by (rule weekly_floor) (use assms(2,3) in simp_all)
  ultimately have w: "estimated_weekly_listeners (estimateMetrics log10 podcast 51) = Fin 21450"
    by simp
  have "estimated_downloads_per_episode (estimateMetrics log10 podcast 51) = Fin 15014"
    by (simp only: estimateMetrics_downloads w downloads_21450)
  with w show ?thesis by blast
qed

text \<open>
  C5, as the code has it. The weekly listeners are
  \<open>floor(5000 * multiplier * log10(episodeCount + 1))\<close> and the downloads per episode
  \<open>floor(weeklyListeners * 0.7)\<close>, in double arithmetic, with the runtime's \<open>log10\<close> and
  the double \<open>0.7\<close>; the multiplier is the genre's entry of the table (2.5 for
  \<open>True Crime\<close>) and 1.0 for a genre that is neither in the table nor the name of a
  property every object inherits; \<open>confidence\<close> is \<open>low\<close>. For \<open>True Crime\<close> and 100
  episodes the weekly listeners are 25054 and the downloads 17537, whenever the
  runtime's \<open>log10(101)\<close> lies between 2.00432 and 2.00436.
\<close>

theorem estimateMetrics_formula:
  "(\<forall>m. map_of genreMultipliers (property_key (primaryGenreName podcast)) = Some m \<longrightarrow>
      estimated_weekly_listeners (estimateMetrics log10 podcast n)
        = Math_floor (js_mul (js_mul (Fin 5000) (Fin m))
                       (Math_log10 log10 (js_add (Fin (real n)) (Fin 1))))) \<and>
   map_of genreMultipliers ''True Crime'' = Some 2.5 \<and>
   (property_key (primaryGenreName podcast) \<notin> fst ` set genreMultipliers \<and>
    property_key (primaryGenreName podcast) \<notin> set Object_prototype_keys \<longrightarrow>
      estimated_weekly_listeners (estimateMetrics log10 podcast n)
        = Math_floor (js_mul (js_mul (Fin 5000) (Fin 1.0))
                       (Math_log10 log10 (js_add (Fin (real n)) (Fin 1))))) \<and>
   (n \<le> 2 ^ 52 \<longrightarrow>
      Math_log10 log10 (js_add (Fin (real n)) (Fin 1)) = Fin (log10 (real n + 1))) \<and>
   estimated_downloads_per_episode (estimateMetrics log10 podcast n)
     = Math_floor (js_mul (estimated_weekly_listeners (estimateMetrics log10 podcast n))
                    (Fin (nearest 0.7))) \<and>
   nearest 0.7 = 3152519739159347 / 2 ^ 52 \<and>
   confidence (estimateMetrics log10 podcast n) = ''low'' \<and>
   (primaryGenreName podcast = Val ''True Crime'' \<and> 2.00432 \<le> log10 101 \<and> log10 101 \<le> 2.00436 \<longrightarrow>
      estimated_weekly_listeners (estimateMetrics log10 podcast 100) = Fin 25054 \<and>
      estimated_downloads_per_episode (estimateMetrics log10 podcast 100) = Fin 17537)"
proof (intro conjI allI impI)
  fix m assume "map_of genreMultipliers (property_key (primaryGenreName podcast)) = Some m"
  from estimateMetrics_multiplier [OF estimateMetrics_own [OF this], of log10 n]
  show "estimated_weekly_listeners (estimateMetrics log10 podcast n)
        = Math_floor (js_mul (js_mul (Fin 5000) (Fin m))
                       (Math_log10 log10 (js_add (Fin (real n)) (Fin 1))))" .
next
  show "map_of genreMultipliers ''True Crime'' = Some 2.5" by (simp add: genreMultipliers_def)
next
  assume "property_key (primaryGenreName podcast) \<notin> fst ` set genreMultipliers \<and>
    property_key (primaryGenreName podcast) \<notin> set Object_prototype_keys"
  then have "prop_or (get_property genreMultipliers (property_key (primaryGenreName podcast)))
             (get_property genreMultipliers ''default'') = PNumber 1"
    using estimateMetrics_unmapped by blast
  from estimateMetrics_multiplier [OF this, of log10 n]
  show "estimated_weekly_listeners (estimateMetrics log10 podcast n)
        = Math_floor (js_mul (js_mul (Fin 5000) (Fin 1.0))
                       (Math_log10 log10 (js_add (Fin (real n)) (Fin 1))))"
    by (simp del: js_mul.simps js_add.simps)
next
  assume "n \<le> 2 ^ 52"
  from log_argument [OF this]
  show "Math_log10 log10 (js_add (Fin (real n)) (Fin 1)) = Fin (log10 (real n + 1))"
    by (simp del: js_add.simps)
next
  show "estimated_downloads_per_episode (estimateMetrics log10 podcast n)
     = Math_floor (js_mul (estimated_weekly_listeners (estimateMetrics log10 podcast n))
                    (Fin (nearest 0.7)))"
    by (rule estimateMetrics_downloads)
next
  show "nearest 0.7 = 3152519739159347 / 2 ^ 52" by (rule nearest_7_10)
next
  show "confidence (estimateMetrics log10 podcast n) = ''low''"
    by (simp add: estimateMetrics_def Let_def)
next
  assume "primaryGenreName podcast = Val ''True Crime'' \<and> 2.00432 \<le> log10 101 \<and> log10 101 \<le> 2.00436"
  then show "estimated_weekly_listeners (estimateMetrics log10 podcast 100) = Fin 25054"
    using true_crime_100 by blast
next
  assume "primaryGenreName podcast = Val ''True Crime'' \<and> 2.00432 \<le> log10 101 \<and> log10 101 \<le> 2.00436"
  then show "estimated_downloads_per_episode (estimateMetrics log10 podcast 100) = Fin 17537"
    using true_crime_100 by blast
qed

lemma log10_sample_101: "2.00432 \<le> log10_sample 101 \<and> log10_sample 101 \<le> 2.00436"
  by (simp add: log10_sample_def)

lemma log10_sample_10: "log10_sample 10 = 1"
  using nearest_of_int [of 1] by (simp add: log10_sample_def)

theorem estimateMetrics_formula_witness:
  "estimated_weekly_listeners
     (estimateMetrics log10_sample (emptyItem\<lparr>primaryGenreName := Val ''True Crime''\<rparr>) 100) = Fin 25054 \<and>
   estimated_downloads_per_episode
     (estimateMetrics log10_sample (emptyItem\<lparr>primaryGenreName := Val ''True Crime''\<rparr>) 100) = Fin 17537 \<and>
   estimated_weekly_listeners
     (estimateMetrics log10_sample (emptyItem\<lparr>primaryGenreName := Val ''Unknown Genre''\<rparr>) 9) = Fin 5000 \<and>
   estimated_downloads_per_episode
     (estimateMetrics log10_sample (emptyItem\<lparr>primaryGenreName := Val ''Unknown Genre''\<rparr>) 9) = Fin 3500 \<and>
   estimated_weekly_listeners
     (estimateMetrics log10_sample (emptyItem\<lparr>primaryGenreName := Val ''News''\<rparr>) 9) = Fin 10000"
proof -
  let ?t = "emptyItem\<lparr>primaryGenreName := Val ''True Crime''\<rparr>"
  let ?u = "emptyItem\<lparr>primaryGenreName := Val ''Unknown Genre''\<rparr>"
  let ?n = "emptyItem\<lparr>primaryGenreName := Val ''News''\<rparr>"
  have "primaryGenreName ?t = Val ''True Crime''" by simp
  with log10_sample_101 have t: "estimated_weekly_listeners (estimateMetrics log10_sample ?t 100) = Fin 25054 \<and>
      estimated_downloads_per_episode (estimateMetrics log10_sample ?t 100) = Fin 17537"
    using estimateMetrics_formula [of ?t log10_sample] by blast
  have arg: "Math_log10 log10_sample (js_add (Fin (real 9)) (Fin 1)) = Fin 1"
  proof -
    have "(9::nat) \<le> 2 ^ 52" by simp
    then have "Math_log10 log10_sample (js_add (Fin (real 9)) (Fin 1)) = Fin (log10_sample (real 9 + 1))"
      using estimateMetrics_formula [of ?u log10_sample 9] by blast
    then show ?thesis by (simp add: log10_sample_10 del: js_add.simps)
  qed
  have p1: "js_mul (js_mul (Fin 5000) (Fin 1.0)) (Fin 1) = Fin 5000"
    using rnd_of_int [of 5000] by simp
  have p2: "js_mul (js_mul (Fin 5000) (Fin 2)) (Fin 1) = Fin 10000"
    using rnd_of_int [of 10000] by simp
  have "property_key (primaryGenreName ?u) \<notin> fst ` set genreMultipliers \<and>
        property_key (primaryGenreName ?u) \<notin> set Object_prototype_keys"
    by (simp add: genreMultipliers_def Object_prototype_keys_def)
  then have "estimated_weekly_listeners (estimateMetrics log10_sample ?u 9)
        = Math_floor (js_mul (js_mul (Fin 5000) (Fin 1.0))
                       (Math_log10 log10_sample (js_add (Fin (real 9)) (Fin 1))))"
    using estimateMetrics_formula [of ?u log10_sample 9] by blast
  then have u: "estimated_weekly_listeners (estimateMetrics log10_sample ?u 9) = Fin 5000"
    by (simp only: arg p1) simp
  have "estimated_downloads_per_episode (estimateMetrics log10_sample ?u 9)
     = Math_floor (js_mul (estimated_weekly_listeners (estimateMetrics log10_sample ?u 9))
                    (Fin (nearest 0.7)))"
    using estimateMetrics_formula [of ?u log10_sample 9] by blast
  then have d: "estimated_downloads_per_episode (estimateMetrics log10_sample ?u 9) = Fin 3500"
    by (simp only: u downloads_5000)
  have "map_of genreMultipliers (property_key (primaryGenreName ?n)) = Some 2"
    by (simp add: genreMultipliers_def)
  then have "estimated_weekly_listeners (estimateMetrics log10_sample ?n 9)
        = Math_floor (js_mul (js_mul (Fin 5000) (Fin 2))
                       (Math_log10 log10_sample (js_add (Fin (real 9)) (Fin 1))))"
    using estimateMetrics_formula [of ?n log10_sample 9] by blast
  then have n: "estimated_weekly_listeners (estimateMetrics log10_sample ?n 9) = Fin 10000"
    by (simp only: arg p2) simp
  from t u d n show ?thesis by blast
qed

text \<open>The figure 25053 is not what the code gives at \<open>True Crime\<close> and 100 episodes.\<close>

theorem estimateMetrics_true_crime_counterexample:
  "estimated_weekly_listeners
     (estimateMetrics log10_sample (emptyItem\<lparr>primaryGenreName := Val ''True Crime''\<rparr>) 100)
     \<noteq> Fin 25053"
proof -
  have "primaryGenreName (emptyItem\<lparr>primaryGenreName := Val ''True Crime''\<rparr>) = Val ''True Crime''"
    by simp
  from true_crime_100 [OF this, of log10_sample] log10_sample_101 show ?thesis by simp
qed

section \<open>The search-context estimate\<close>

lemma baseMultiplier_values:
  "map_of baseMultiplier k = Some m \<Longrightarrow> 0 < m \<and> m \<in> \<int>"
  by (auto simp add: baseMultiplier_def split: if_splits)

lemma baseMultiplier_default: "get_property baseMultiplier ''default'' = PNumber 4000"
  by (simp add: get_property_def baseMultiplier_def)

lemma estimateListeners_multiplier:
  assumes "prop_or (get_property baseMultiplier (property_key genre))
             (get_property baseMultiplier ''default'') = PNumber m"
  shows "estimateListeners episodeCount genre =
           Math_floor (js_mul (Fin m) (js_add (Fin 1) (Math_min (js_div (ToNumber episodeCount) (Fin 100)) (Fin 5))))"
  using assms by (simp add: estimateListeners_def Let_def del: js_mul.simps js_add.simps js_div.simps)

lemma estimateListeners_own:
  assumes "map_of baseMultiplier (property_key genre) = Some m"
  shows "estimateListeners episodeCount genre =
           Math_floor (js_mul (Fin m) (js_add (Fin 1) (Math_min (js_div (ToNumber episodeCount) (Fin 100)) (Fin 5))))"
proof -
  have "m \<noteq> 0" using baseMultiplier_values [OF assms] by simp
  then have "prop_or (get_property baseMultiplier (property_key genre))
             (get_property baseMultiplier ''default'') = PNumber m"
    using assms by (simp add: get_property_def)
  then show ?thesis by (rule estimateListeners_multiplier)
qed

lemma estimateListeners_unmapped:
  assumes "property_key genre \<notin> fst ` set baseMultiplier"
    and "property_key genre \<notin> set Object_prototype_keys"
  shows "estimateListeners episodeCount genre =
           Math_floor (js_mul (Fin 4000) (js_add (Fin 1) (Math_min (js_div (ToNumber episodeCount) (Fin 100)) (Fin 5))))"
proof -
  have "map_of baseMultiplier (property_key genre) = None"
    using assms(1) by (simp add: map_of_eq_None_iff)
  then have "get_property baseMultiplier (property_key genre) = PUndefined"
    using assms(2) by (simp add: get_property_def)
  then have "prop_or (get_property baseMultiplier (property_key genre))
             (get_property baseMultiplier ''default'') = PNumber 4000"
    by (simp add: baseMultiplier_default)
  then show ?thesis by (rule estimateListeners_multiplier)
qed

lemma prototype_keys_not_own_all:
  "list_all (\<lambda>k. map_of baseMultiplier k = None) Object_prototype_keys"
  unfolding Object_prototype_keys_def baseMultiplier_def by simp

lemma prototype_keys_not_own:
  "k \<in> set Object_prototype_keys \<Longrightarrow> map_of baseMultiplier k = None"
  using prototype_keys_not_own_all by (simp add: list_all_iff)

lemma estimateListeners_inherited:
  assumes "property_key genre \<in> set Object_prototype_keys"
  shows "estimateListeners episodeCount genre = NaN"
proof -
  have "get_property baseMultiplier (property_key genre) = PObject"
    using assms prototype_keys_not_own [OF assms] by (simp add: get_property_def)
  then show ?thesis
    by (simp add: estimateListeners_def Let_def del: js_add.simps js_div.simps)
qed

text \<open>
  C6 at the genre \<open>constructor\<close>, which is absent from the table: the lookup finds the
  constructor every object inherits, and the estimate is \<open>NaN\<close>, where the genre
  \<open>Unknown Genre\<close> gives \<open>floor(4000 * (1 + min(100/100, 5))) = 8000\<close>.
\<close>

theorem estimateListeners_constructor:
  "estimateListeners (Val (Fin 100)) (Val ''constructor'') = NaN \<and>
   estimateListeners (Val (Fin 100)) (Val ''Unknown Genre'') = Fin 8000 \<and>
   map_of baseMultiplier ''constructor'' = None \<and> map_of baseMultiplier ''Unknown Genre'' = None"
proof -
  have "property_key (Val ''constructor'') \<in> set Object_prototype_keys"
    by (simp add: Object_prototype_keys_def)
  then have a: "estimateListeners (Val (Fin 100)) (Val ''constructor'') = NaN"
    by (rule estimateListeners_inherited)
  have "property_key (Val ''Unknown Genre'') \<notin> fst ` set baseMultiplier"
    "property_key (Val ''Unknown Genre'') \<notin> set Object_prototype_keys"
    by (simp_all add: baseMultiplier_def Object_prototype_keys_def)
  from estimateListeners_unmapped [OF this, of "Val (Fin 100)"]
  have b: "estimateListeners (Val (Fin 100)) (Val ''Unknown Genre'') = Fin 8000"
    by (simp add: rnd_one rnd_numeral)
  have c: "map_of baseMultiplier ''constructor'' = None" "map_of baseMultiplier ''Unknown Genre'' = None"
    by (simp_all add: baseMultiplier_def)
  from a b c show ?thesis by blast
qed

text \<open>
  C10 at the genre \<open>toString\<close>: the estimate is \<open>NaN\<close> at every episode count, so it is
  not the default multiplier at 0 and no two of its values compare.
\<close>

theorem estimateListeners_toString:
  "estimateListeners (Val (Fin 0)) (Val ''toString'') = NaN \<and>
   estimateListeners (Val (Fin 0)) (Val ''toString'') \<noteq> Fin 4000 \<and>
   \<not> js_le (estimateListeners (Val (Fin 0)) (Val ''toString''))
          (estimateListeners (Val (Fin 1)) (Val ''toString''))"
proof -
  have "property_key (Val ''toString'') \<in> set Object_prototype_keys"
    by (simp add: Object_prototype_keys_def)
  from estimateListeners_inherited [OF this] show ?thesis by simp
qed

section \<open>Missing fields\<close>

lemma searchEpisode_missing_duration:
  "trackTimeMillis episode = Undefined \<Longrightarrow>
     se_duration_ms (searchEpisode_of episode) = Undefined \<and>
     se_duration_formatted (searchEpisode_of episode) = ''0:00''"
  "trackTimeMillis episode = Null \<Longrightarrow>
     se_duration_ms (searchEpisode_of episode) = Null \<and>
     se_duration_formatted (searchEpisode_of episode) = ''0:00''"
  by (simp_all add: searchEpisode_of_def formatDuration_def)

lemma generateEpisodeAnalytics_no_throw: "\<exists>r. generateEpisodeAnalytics parse eps = Inr r"
proof (cases "eps = []")
  case True
  then show ?thesis by (simp add: generateEpisodeAnalytics_def)
next
  case False
  from generateEpisodeAnalytics_Val [OF this, of parse] show ?thesis by (simp add: Let_def)
qed

lemma podcastDetails_of_throws:
  "collectionId podcastInfo = Undefined \<or> collectionId podcastInfo = Null \<Longrightarrow>
     podcastDetails_of parse log10 podcastInfo episodes = Inl TypeError"
  by (auto simp add: podcastDetails_of_def Let_def)

lemma positive_durations_missing:
  "positive_durations (Undefined # ms) = positive_durations ms"
  "positive_durations (Null # ms) = positive_durations ms"
  by (simp_all add: positive_durations_def rnd_zero)

lemma sorted_dates_invalid:
  "newDate parse f = InvalidDate \<Longrightarrow> sorted_dates parse (f # fs) = sorted_dates parse fs"
  by (simp add: sorted_dates_def valid_times_def)

lemma sorted_dates_absent: "sorted_dates parse (Undefined # fs) = sorted_dates parse fs"
  by (simp add: sorted_dates_invalid)

text \<open>
  C7 at an episode whose \<open>releaseDate\<close> is \<open>null\<close>: \<open>new Date(null)\<close> is the epoch, a
  valid date, and it stays in the aggregate. With one dated episode beside it, the first
  episode date is the epoch and the average gap is the 19730 days from 1970 to
  8 January 2024; without the entry there is one date, no average and the label
  \<open>unknown\<close>.
\<close>

theorem null_release_date_is_counted:
  "sorted_dates Date_parse_sample [Null, Val ''2024-01-08T00:00:00Z''] = [1704672000000, 0] \<and>
   sorted_dates Date_parse_sample [Undefined, Val ''2024-01-08T00:00:00Z''] = [1704672000000] \<and>
   generateEpisodeAnalytics Date_parse_sample
     [episode_of (emptyItem\<lparr>releaseDate := Null\<rparr>),
      episode_of (emptyItem\<lparr>releaseDate := Val ''2024-01-08T00:00:00Z''\<rparr>)]
   = Inr (Val \<lparr> total_episodes = 2,
                average_duration_seconds = Fin 0,
                average_duration_formatted = ''0:00'',
                first_episode_date = Val (ISOString 0),
                latest_episode_date = Val (ISOString 1704672000000),
                average_days_between_episodes = Val (Fin 19730),
                publishing_frequency = ''irregular'' \<rparr>) \<and>
   generateEpisodeAnalytics Date_parse_sample
     [episode_of (emptyItem\<lparr>releaseDate := Val ''2024-01-08T00:00:00Z''\<rparr>)]
   = Inr (Val \<lparr> total_episodes = 1,
                average_duration_seconds = Fin 0,
                average_duration_formatted = ''0:00'',
                first_episode_date = Val (ISOString 1704672000000),
                latest_episode_date = Val (ISOString 1704672000000),
                average_days_between_episodes = Null,
                publishing_frequency = ''unknown'' \<rparr>)"
proof -
  let ?n = "episode_of (emptyItem\<lparr>releaseDate := Null\<rparr>)"
  let ?e = "episode_of (emptyItem\<lparr>releaseDate := Val ''2024-01-08T00:00:00Z''\<rparr>)"
  have d: "sorted_dates Date_parse_sample [Null, Val ''2024-01-08T00:00:00Z''] = [1704672000000, 0]"
    by (simp add: sorted_dates_def valid_times_def sort_desc_def Date_parse_sample_def)
  have u: "sorted_dates Date_parse_sample [Undefined, Val ''2024-01-08T00:00:00Z''] = [1704672000000]"
    by (simp add: sorted_dates_def valid_times_def sort_desc_def Date_parse_sample_def)
  have s: "sorted_dates Date_parse_sample [Val ''2024-01-08T00:00:00Z''] = [1704672000000]"
    by (simp add: sorted_dates_def valid_times_def sort_desc_def Date_parse_sample_def)
  have m: "release_date ?n = Null" "duration_ms ?n = Undefined"
    "release_date ?e = Val ''2024-01-08T00:00:00Z''" "duration_ms ?e = Undefined"
    by (simp_all add: episode_of_def emptyItem_def)
  have a: "avgDaysBetween 20 [1704672000000, 0] = Val (Fin 19730)"
    by (simp add: avgDaysBetween_def intervals_def rnd_numeral)
  have a1: "avgDaysBetween 20 [1704672000000] = Null"
    by (simp add: avgDaysBetween_def)
  have p: "avgDuration (positive_durations [Undefined, Undefined]) = Fin 0"
    "avgDuration (positive_durations [Undefined]) = Fin 0"
    by (simp_all add: avgDuration_def positive_durations_def)
  have r: "\<lfloor>(19730::real) + 1 / 2\<rfloor> = 19730" by linarith
  have z: "js_mul (Fin 0) (Fin 1000) = Fin 0" by (simp add: rnd_zero)
  have "[?n, ?e] \<noteq> []" by simp
  from generateEpisodeAnalytics_Val [OF this, of Date_parse_sample]
  have two: "generateEpisodeAnalytics Date_parse_sample [?n, ?e]
   = Inr (Val \<lparr> total_episodes = 2,
                average_duration_seconds = Fin 0,
                average_duration_formatted = ''0:00'',
                first_episode_date = Val (ISOString 0),
                latest_episode_date = Val (ISOString 1704672000000),
                average_days_between_episodes = Val (Fin 19730),
                publishing_frequency = ''irregular'' \<rparr>)"
    by (simp add: m d a p r z Let_def estimateFrequency_def formatDuration_def del: js_mul.simps)
  have "[?e] \<noteq> []" by simp
  from generateEpisodeAnalytics_Val [OF this, of Date_parse_sample]
  have one: "generateEpisodeAnalytics Date_parse_sample [?e]
   = Inr (Val \<lparr> total_episodes = 1,
                average_duration_seconds = Fin 0,
                average_duration_formatted = ''0:00'',
                first_episode_date = Val (ISOString 1704672000000),
                latest_episode_date = Val (ISOString 1704672000000),
                average_days_between_episodes = Null,
                publishing_frequency = ''unknown'' \<rparr>)"
    by (simp add: m s a1 p z Let_def estimateFrequency_def formatDuration_def del: js_mul.simps)
  from d u two one show ?thesis by blast
qed

end
